theory Spec2Isabelle
  imports Main "HOL-Library.Multiset"
begin

section \<open>Font pipeline of the rich-text control (fontHelper.ts)\<close>

text \<open>
  A shallow embedding of \<^verbatim>\<open>src/PCF-Controls/CustomRichTextControl/src/fontHelper.ts\<close>:
  the MIME table, the data-URI loader, the attributor registrar, the style injector, the
  cleanup routine and the orchestrator. The repository holds a second, older variant of
  the same module; the definitions below follow fontHelper.ts, the variant with the
  \<^verbatim>\<open>eot\<close> row and the \<^verbatim>\<open>.css\<close> / \<^verbatim>\<open>family=\<close> heuristic.

  Strings are \<^typ>\<open>string\<close>. Every pattern the code searches for (\<^verbatim>\<open>http\<close>,
  \<^verbatim>\<open>.css\<close>, \<^verbatim>\<open>family=\<close>, the dot, the slash, the extensions) is ASCII, so the
  searches give the same answers on bytes as on UTF-16 code units.
\<close>

subsection \<open>String operations of the host language\<close>

text \<open>
  \<^verbatim>\<open>String.prototype.toLowerCase\<close>, restricted to what the code compares the result with:
  ASCII letters are folded, every other character is left alone. No character outside
  ASCII lower-cases to one of the letters of \<^verbatim>\<open>ttf otf woff woff2 eot .css\<close>.
\<close>

definition toLowerCase_char :: "char \<Rightarrow> char" where
  "toLowerCase_char c =
     (let n = (of_char c :: nat) in if 65 \<le> n \<and> n \<le> 90 then char_of (n + 32) else c)"

definition toLowerCase :: "string \<Rightarrow> string" where
  "toLowerCase s = map toLowerCase_char s"

definition startsWith :: "string \<Rightarrow> string \<Rightarrow> bool" where
  "startsWith s p = (take (length p) s = p)"

definition endsWith :: "string \<Rightarrow> string \<Rightarrow> bool" where
  "endsWith s p = (length p \<le> length s \<and> drop (length s - length p) s = p)"

fun includes_str :: "string \<Rightarrow> string \<Rightarrow> bool" where
  "includes_str [] p = (p = [])"
| "includes_str (c # cs) p = (startsWith (c # cs) p \<or> includes_str cs p)"

text \<open>\<^verbatim>\<open>s.split(sep)\<close> for a one-character separator: never the empty array.\<close>

fun split_on :: "char \<Rightarrow> string \<Rightarrow> string list" where
  "split_on sep [] = [[]]"
| "split_on sep (c # cs) =
     (if c = sep then [] # split_on sep cs
      else (case split_on sep cs of
              [] \<Rightarrow> [[c]]
            | seg # segs \<Rightarrow> (c # seg) # segs))"

text \<open>\<^verbatim>\<open>Array.prototype.pop\<close>: the last element, \<^verbatim>\<open>undefined\<close> on the empty array.\<close>

definition pop :: "'a list \<Rightarrow> 'a option" where
  "pop xs = (if xs = [] then None else Some (last xs))"

subsection \<open>Data model\<close>

record FontInfo =
  name :: string
  quillValue :: string
  url :: string
  cssFamily :: string

subsection \<open>MIME type of a font URL\<close>

text \<open>
  \<^verbatim>\<open>const extension = url.split('.').pop()?.toLowerCase(); switch (extension) ...\<close>
\<close>

definition getFontMimeTypeFromUrl :: "string \<Rightarrow> string" where
  "getFontMimeTypeFromUrl u =
     (let extension = map_option toLowerCase (pop (split_on CHR ''.'' u)) in
      if extension = Some ''ttf'' then ''font/ttf''
      else if extension = Some ''otf'' then ''font/otf''
      else if extension = Some ''woff'' then ''font/woff''
      else if extension = Some ''woff2'' then ''font/woff2''
      else if extension = Some ''eot'' then ''application/vnd.ms-fontobject''
      else ''application/octet-stream'')"

text \<open>
  The specification's notion of the file extension of a URL, written independently of
  the code: the text after the last dot (the whole string when it has no dot), in lower
  case.
\<close>

definition fileExtension :: "string \<Rightarrow> string" where
  "fileExtension u = toLowerCase (rev (takeWhile (\<lambda>c. c \<noteq> CHR ''.'') (rev u)))"

subsection \<open>Promises, the network and the console\<close>

datatype js_error =
    NetworkError
  | HttpError string
  | BodyError
  | FileReaderError
  | TypeError

text \<open>
  The state a promise ends in. \<open>Pending\<close> is a promise that never settles (the code
  sets no timeout, so a request that hangs leaves its promise pending for good).
\<close>

datatype 'a promise = Fulfilled 'a | Rejected js_error | Pending

text \<open>
  What the code does to the outside world, in the order it does it: the requests it
  sends, what it writes to the console, and (in the orchestrator) the calls of the
  registrar and of the style injector.
\<close>

datatype event =
    Fetch string
  | ConsoleError string
  | ConsoleWarn string
  | Call_registerQuillFonts
  | Call_injectFontStyles

text \<open>
  A blob is represented by what \<^verbatim>\<open>FileReader.readAsDataURL\<close> makes of it: the data URL,
  or nothing when the read fails (\<^verbatim>\<open>reader.result\<close> is then \<^verbatim>\<open>null\<close> and
  \<^verbatim>\<open>reader.error\<close> is set).
\<close>

datatype blob = Blob "string option"

record response =
  ok :: bool
  statusText :: string
  blob_of :: "blob promise"

type_synonym network = "string \<Rightarrow> response promise"

text \<open>
  \<^verbatim>\<open>new Promise((resolve, reject) => { ... reader.readAsDataURL(fontBlob) })\<close>.
  A successful read fires \<^verbatim>\<open>loadend\<close> with a string result: \<^verbatim>\<open>resolve(result)\<close>.
  A failed read fires \<^verbatim>\<open>error\<close> first (\<^verbatim>\<open>console.error\<close>, then
  \<^verbatim>\<open>reject(reader.error)\<close>) and \<^verbatim>\<open>loadend\<close> after it, whose \<^verbatim>\<open>reject\<close> finds the
  promise settled already.
\<close>

definition readAsDataURL_promise :: "blob \<Rightarrow> string promise \<times> event list" where
  "readAsDataURL_promise b =
     (case b of
        Blob (Some result) \<Rightarrow> (Fulfilled result, [])
      | Blob None \<Rightarrow> (Rejected FileReaderError, [ConsoleError ''FileReader error:'']))"

text \<open>
  How the \<^verbatim>\<open>try\<close> block of \<^verbatim>\<open>getFontDataUri\<close> ends: with an exception raised inside it
  (a rejected promise at an \<^verbatim>\<open>await\<close>, or the \<^verbatim>\<open>throw\<close>), with the operand of its
  \<^verbatim>\<open>return\<close> statement, or never (an \<^verbatim>\<open>await\<close> on a promise that stays pending).
\<close>

datatype 'a completion = Throws js_error | Returns 'a | Suspended

definition try_block :: "network \<Rightarrow> string \<Rightarrow> string promise completion \<times> event list" where
  "try_block net fontUrl =
     (case net fontUrl of
        Pending \<Rightarrow> (Suspended, [Fetch fontUrl])
      | Rejected e \<Rightarrow> (Throws e, [Fetch fontUrl])
      | Fulfilled resp \<Rightarrow>
          if \<not> ok resp then (Throws (HttpError (statusText resp)), [Fetch fontUrl])
          else (case blob_of resp of
                  Pending \<Rightarrow> (Suspended, [Fetch fontUrl])
                | Rejected e \<Rightarrow> (Throws e, [Fetch fontUrl])
                | Fulfilled fontBlob \<Rightarrow>
                    (case readAsDataURL_promise fontBlob of
                       (p, evs) \<Rightarrow> (Returns p, Fetch fontUrl # evs))))"

text \<open>
  \<^verbatim>\<open>getFontDataUri\<close>. The \<^verbatim>\<open>catch\<close> clause handles what is thrown inside the
  \<^verbatim>\<open>try\<close> block. The block's last statement is \<^verbatim>\<open>return new Promise(...)\<close>, with no
  \<^verbatim>\<open>await\<close>: the block has completed when that promise settles, and the promise of the
  async function takes over its state, fulfilled or rejected.
\<close>

definition getFontDataUri :: "network \<Rightarrow> string \<Rightarrow> string option promise \<times> event list" where
  "getFontDataUri net fontUrl =
     (if startsWith fontUrl ''http'' \<or> fontUrl = [] then (Fulfilled None, [])
      else
        (case try_block net fontUrl of
           (Throws error, evs) \<Rightarrow>
             (Fulfilled None, evs @ [ConsoleError (''Error loading font from '' @ fontUrl @ '':'')])
         | (Suspended, evs) \<Rightarrow> (Pending, evs)
         | (Returns p, evs) \<Rightarrow>
             (case p of
                Fulfilled dataUrl \<Rightarrow> (Fulfilled (Some dataUrl), evs)
              | Rejected e \<Rightarrow> (Rejected e, evs)
              | Pending \<Rightarrow> (Pending, evs))))"

subsection \<open>The editor library's format registry\<close>

text \<open>
  Modelled from the spec: the editor library (react-quill's \<^verbatim>\<open>Quill.import\<close> and
  \<^verbatim>\<open>Quill.register\<close>) is not part of this repository. The specification describes it as
  a global registry with a lookup by key for attributor classes, a settable
  \<^verbatim>\<open>whitelist\<close> field on the class returned, and a \<^verbatim>\<open>register\<close> entry point that takes
  a class and an overwrite flag. Classes are objects: the registry maps keys to
  addresses, so that a write to the class found under one key is seen under every key
  that names the same class. The registry keeps the calls of \<^verbatim>\<open>register\<close> it received.
\<close>

record attributor =
  blotName :: string
  whitelist :: "string list"

record quill =
  imports_of :: "string \<rightharpoonup> nat"
  classes :: "nat \<Rightarrow> attributor"
  register_calls :: "(nat \<times> bool) list"

definition Quill_import :: "quill \<Rightarrow> string \<Rightarrow> nat option" where
  "Quill_import q path = imports_of q path"

definition Quill_register :: "nat \<Rightarrow> bool \<Rightarrow> quill \<Rightarrow> quill" where
  "Quill_register target overwrite q =
     q\<lparr>imports_of := (imports_of q)(''formats/'' @ blotName (classes q target) \<mapsto> target),
       register_calls := register_calls q @ [(target, overwrite)]\<rparr>"

text \<open>
  \<^verbatim>\<open>registerQuillFonts\<close>. When the registry has no class under \<^verbatim>\<open>formats/font\<close> the
  lookup gives \<^verbatim>\<open>undefined\<close>, and the assignment to its \<^verbatim>\<open>whitelist\<close> raises a TypeError.
\<close>

definition registerQuillFonts :: "FontInfo list \<Rightarrow> quill \<Rightarrow> js_error + quill" where
  "registerQuillFonts fonts q =
     (case Quill_import q ''formats/font'' of
        None \<Rightarrow> Inl TypeError
      | Some FontAttributor \<Rightarrow>
          Inr (Quill_register FontAttributor True
                 (q\<lparr>classes := (classes q)
                      (FontAttributor :=
                         (classes q FontAttributor)\<lparr>whitelist := map quillValue fonts\<rparr>)\<rparr>)))"

subsection \<open>The document\<close>

text \<open>
  The elements of the page in tree order: the children of \<^verbatim>\<open>document.head\<close>, then the
  elements after the head. Elements are taken one by one, without their nesting (the
  style and link elements of this code have no element children). An element has the
  attributes the code reads or writes; an attribute that is not set is the empty string,
  and the code never looks the empty id up. A reference to an element is its position;
  the code only appends to the head between taking a reference and using it, which
  leaves positions as they are.
\<close>

record element =
  tagName :: string
  elem_id :: string
  rel :: string
  href :: string
  innerHTML :: string

record document =
  head :: "element list"
  body :: "element list"

datatype ref = InHead nat | InBody nat

fun index_of_id :: "string \<Rightarrow> element list \<Rightarrow> nat option" where
  "index_of_id i [] = None"
| "index_of_id i (e # es) =
     (if elem_id e = i then Some 0 else map_option Suc (index_of_id i es))"

text \<open>\<^verbatim>\<open>document.getElementById\<close>: the first element with the id, in tree order.\<close>

definition getElementById :: "document \<Rightarrow> string \<Rightarrow> ref option" where
  "getElementById d i =
     (case index_of_id i (head d) of
        Some k \<Rightarrow> Some (InHead k)
      | None \<Rightarrow> map_option InBody (index_of_id i (body d)))"

definition createElement :: "string \<Rightarrow> element" where
  "createElement tag =
     \<lparr>tagName = tag, elem_id = [], rel = [], href = [], innerHTML = []\<rparr>"

definition head_appendChild :: "element \<Rightarrow> document \<Rightarrow> document" where
  "head_appendChild e d = d\<lparr>head := head d @ [e]\<rparr>"

definition set_innerHTML :: "ref \<Rightarrow> string \<Rightarrow> document \<Rightarrow> document" where
  "set_innerHTML r text d =
     (case r of
        InHead k \<Rightarrow> d\<lparr>head := (head d)[k := (head d ! k)\<lparr>innerHTML := text\<rparr>]\<rparr>
      | InBody k \<Rightarrow> d\<lparr>body := (body d)[k := (body d ! k)\<lparr>innerHTML := text\<rparr>]\<rparr>)"

text \<open>\<^verbatim>\<open>element.remove()\<close>: the element leaves its parent.\<close>

definition remove :: "ref \<Rightarrow> document \<Rightarrow> document" where
  "remove r d =
     (case r of
        InHead k \<Rightarrow> d\<lparr>head := take k (head d) @ drop (Suc k) (head d)\<rparr>
      | InBody k \<Rightarrow> d\<lparr>body := take k (body d) @ drop (Suc k) (body d)\<rparr>)"

subsection \<open>Plain objects\<close>

text \<open>
  \<^verbatim>\<open>loadedFontDataUris\<close> is a plain object (\<^verbatim>\<open>{}\<close> in \<^verbatim>\<open>applyFonts\<close>): the map of its
  own properties, on top of the members every plain object inherits from
  \<^verbatim>\<open>Object.prototype\<close>. Reading \<^verbatim>\<open>obj[key]\<close> gives the own property when there is one,
  else the inherited member when the key names one, else \<^verbatim>\<open>undefined\<close>.
\<close>

definition Object_prototype_members :: "string list" where
  "Object_prototype_members =
     [''constructor'', ''hasOwnProperty'', ''isPrototypeOf'', ''propertyIsEnumerable'',
      ''toLocaleString'', ''toString'', ''valueOf'', ''__defineGetter__'',
      ''__defineSetter__'', ''__lookupGetter__'', ''__lookupSetter__'', ''__proto__'']"

datatype js_value = JsString string | JsMember string

definition object_get :: "(string \<rightharpoonup> string) \<Rightarrow> string \<Rightarrow> js_value option" where
  "object_get obj key =
     (case obj key of
        Some s \<Rightarrow> Some (JsString s)
      | None \<Rightarrow> if key \<in> set Object_prototype_members then Some (JsMember key) else None)"

text \<open>
  Truthiness: a string is truthy unless it is empty; the inherited members are
  functions, and under \<^verbatim>\<open>__proto__\<close> the prototype object itself, all truthy.
\<close>

definition truthy :: "js_value \<Rightarrow> bool" where
  "truthy v = (case v of JsString s \<Rightarrow> s \<noteq> [] | JsMember key \<Rightarrow> True)"

text \<open>
  The text of a value inside a template literal. A built-in function prints as
  \<^verbatim>\<open>function name() { [native code] }\<close> (the spacing is the engine's; this is the form
  V8 and JavaScriptCore print), \<^verbatim>\<open>constructor\<close> is the function \<^verbatim>\<open>Object\<close>, and
  the prototype object prints as \<^verbatim>\<open>[object Object]\<close>.
\<close>

definition template_text :: "js_value \<Rightarrow> string" where
  "template_text v =
     (case v of
        JsString s \<Rightarrow> s
      | JsMember key \<Rightarrow>
          if key = ''__proto__'' then ''[object Object]''
          else ''function '' @ (if key = ''constructor'' then ''Object'' else key) @
               ''() { [native code] }'')"

text \<open>
  \<^verbatim>\<open>obj[key] = value\<close> for a string value: an own property is written, except under
  \<^verbatim>\<open>__proto__\<close> on an object that has no own property of that name, where the inherited
  setter ignores a value that is not an object.
\<close>

definition object_set ::
  "(string \<rightharpoonup> string) \<Rightarrow> string \<Rightarrow> string \<Rightarrow> (string \<rightharpoonup> string)" where
  "object_set obj key v =
     (if key = ''__proto__'' \<and> obj key = None then obj else obj(key \<mapsto> v))"

subsection \<open>The style injector\<close>

abbreviation (input) sq :: string where
  "sq \<equiv> [CHR 0x27]"

definition styleId :: string where
  "styleId = ''quill-dynamic-font-style''"

definition linkId :: "FontInfo \<Rightarrow> string" where
  "linkId font = ''font-link-'' @ quillValue font"

definition isExternalCssLink :: "FontInfo \<Rightarrow> bool" where
  "isExternalCssLink font =
     (startsWith (url font) ''http'' \<and>
      (endsWith (toLowerCase (url font)) ''.css'' \<or> includes_str (url font) ''family=''))"

definition isExternalFontFile :: "FontInfo \<Rightarrow> bool" where
  "isExternalFontFile font =
     (startsWith (url font) ''http'' \<and> \<not> isExternalCssLink font \<and>
      getFontMimeTypeFromUrl (url font) \<noteq> ''application/octet-stream'')"

definition isLocalFontFile :: "FontInfo \<Rightarrow> bool" where
  "isLocalFontFile font = (url font \<noteq> [] \<and> \<not> startsWith (url font) ''http'')"

text \<open>
  \<^verbatim>\<open>getFontMimeTypeFromUrl(font.url).split('/')[1]\<close>, then \<^verbatim>\<open>ttf\<close> becomes
  \<^verbatim>\<open>truetype\<close>. An index past the end reads \<^verbatim>\<open>undefined\<close>, which the template prints
  as that word.
\<close>

definition fontFormatInCss :: "string \<Rightarrow> string" where
  "fontFormatInCss u =
     (let format = (case split_on CHR ''/'' (getFontMimeTypeFromUrl u) of
                      _ # part # _ \<Rightarrow> part
                    | _ \<Rightarrow> ''undefined'')
      in if format = ''ttf'' then ''truetype'' else format)"

text \<open>
  The \<^verbatim>\<open>@font-face\<close> template. The code has it twice, word for word, once with
  \<^verbatim>\<open>font.url\<close> and once with the data URI as the source.
\<close>

definition fontFaceCss :: "string \<Rightarrow> string \<Rightarrow> string \<Rightarrow> string" where
  \<open>fontFaceCss family src fmt =
     ''\<newline>@font-face {\<newline>  font-family: '' @ sq @ family @ sq @ '';\<newline>  src: url('' @ sq @ src @ sq @ '') format('' @ sq @ fmt @ sq @ '');\<newline>  font-weight: normal; /* Customize if your font has specific weights */\<newline>  font-style: normal;  /* Customize if your font has specific styles */\<newline>  font-display: swap; /* Add this for better font loading behavior */\<newline>}\<newline>''\<close>

text \<open>
  The template appended for every font, in its two rules: the picker label and the
  class of the content in the editor.
\<close>

definition pickerLabelCss :: "FontInfo \<Rightarrow> string" where
  \<open>pickerLabelCss font =
     ''\<newline>/* Styles for font picker dropdown label */\<newline>.ql-picker.ql-font .ql-picker-label[data-value="'' @ quillValue font @ ''"]::before,\<newline>.ql-picker.ql-font .ql-picker-item[data-value="'' @ quillValue font @ ''"]::before {\<newline>  content: "'' @ name font @ ''"; /* Displays the user-friendly name in the dropdown */\<newline>  font-family: '' @ cssFamily font @ ''; /* Applies the cssFamily (e.g., 'Virgin Money Loop, sans-serif') */\<newline>}\<newline>''\<close>

definition contentClassCss :: "FontInfo \<Rightarrow> string" where
  \<open>contentClassCss font =
     ''/* Styles for actual content in the editor */\<newline>.ql-font-'' @ quillValue font @ '' {\<newline>  font-family: '' @ cssFamily font @ ''; /* Applies the cssFamily (e.g., 'Virgin Money Loop, sans-serif') */\<newline>}\<newline>''\<close>

text \<open>
  One round of \<^verbatim>\<open>fonts.forEach\<close>, on the document, the text collected so far and the
  console. \<^verbatim>\<open>loadedFontDataUris[font.name]\<close> is read as a property of a plain object and
  tested for truthiness: \<^verbatim>\<open>undefined\<close> and the empty string take the \<^verbatim>\<open>else\<close> branch,
  an inherited member takes the first.
\<close>

definition injectFont ::
  "(string \<rightharpoonup> string) \<Rightarrow> FontInfo \<Rightarrow> document \<times> string \<times> event list
     \<Rightarrow> document \<times> string \<times> event list" where
  "injectFont loadedFontDataUris font = (\<lambda>(d, allFontCss, console).
     (case
        (if isExternalCssLink font then
           (if getElementById d (linkId font) = None then
              (head_appendChild
                 ((createElement ''link'')
                    \<lparr>elem_id := linkId font, rel := ''stylesheet'', href := url font\<rparr>) d,
               allFontCss, console)
            else (d, allFontCss, console))
         else if isExternalFontFile font then
           (d, allFontCss @ fontFaceCss (name font) (url font) (fontFormatInCss (url font)),
            console)
         else if isLocalFontFile font then
           (case object_get loadedFontDataUris (name font) of
              Some dataUri \<Rightarrow>
                if truthy dataUri then
                  (d, allFontCss @
                      fontFaceCss (name font) (template_text dataUri)
                        (fontFormatInCss (url font)),
                   console)
                else
                  (d, allFontCss,
                   console @ [ConsoleWarn (''Font data URI not found for '' @ name font @
                                ''. Skipping @font-face injection.'')])
            | None \<Rightarrow>
                (d, allFontCss,
                 console @ [ConsoleWarn (''Font data URI not found for '' @ name font @
                              ''. Skipping @font-face injection.'')]))
         else (d, allFontCss, console))
      of (d', css', console') \<Rightarrow>
        (d', css' @ pickerLabelCss font @ contentClassCss font, console')))"

text \<open>
  The head of \<^verbatim>\<open>injectFontStyles\<close>: the element with the style id when the document has
  one, a new \<^verbatim>\<open>style\<close> element appended to the head otherwise.
\<close>

definition ensureStyle :: "document \<Rightarrow> ref \<times> document" where
  "ensureStyle d =
     (case getElementById d styleId of
        Some r \<Rightarrow> (r, d)
      | None \<Rightarrow>
          (InHead (length (head d)),
           head_appendChild ((createElement ''style'')\<lparr>elem_id := styleId\<rparr>) d))"

text \<open>
  \<^verbatim>\<open>injectFontStyles\<close>: find or create the style element, run the loop, assign the text
  to the style element. It returns the document and what it wrote to the console.
\<close>

definition injectFontStyles ::
  "FontInfo list \<Rightarrow> (string \<rightharpoonup> string) \<Rightarrow> document \<Rightarrow> document \<times> event list" where
  "injectFontStyles fonts loadedFontDataUris d =
     (case ensureStyle d of
        (style, d0) \<Rightarrow>
          (case foldl (\<lambda>acc font. injectFont loadedFontDataUris font acc) (d0, [], []) fonts
           of (d1, allFontCss, console) \<Rightarrow> (set_innerHTML style allFontCss d1, console)))"

text \<open>The text of the style element of a document (empty when there is none).\<close>

definition styleSheet :: "document \<Rightarrow> string" where
  "styleSheet d =
     (case getElementById d styleId of
        Some (InHead k) \<Rightarrow> innerHTML (head d ! k)
      | Some (InBody k) \<Rightarrow> innerHTML (body d ! k)
      | None \<Rightarrow> [])"

text \<open>The elements of a document without their text: tag, id, rel and href.\<close>

definition skeleton :: "document \<Rightarrow> (string \<times> string \<times> string \<times> string) list" where
  "skeleton d = map (\<lambda>e. (tagName e, elem_id e, rel e, href e)) (head d @ body d)"

text \<open>
  The three effects of one round of the loop, taken apart: what it does to the document,
  the text it appends, and what it writes to the console.
\<close>

definition ensureLink :: "FontInfo \<Rightarrow> document \<Rightarrow> document" where
  "ensureLink font d =
     (if isExternalCssLink font \<and> getElementById d (linkId font) = None then
        head_appendChild
          ((createElement ''link'')
             \<lparr>elem_id := linkId font, rel := ''stylesheet'', href := url font\<rparr>) d
      else d)"

definition fontFaceOf :: "(string \<rightharpoonup> string) \<Rightarrow> FontInfo \<Rightarrow> string" where
  "fontFaceOf m font =
     (if isExternalCssLink font then []
      else if isExternalFontFile font then
        fontFaceCss (name font) (url font) (fontFormatInCss (url font))
      else if isLocalFontFile font then
        (case object_get m (name font) of
           Some dataUri \<Rightarrow>
             if truthy dataUri then
               fontFaceCss (name font) (template_text dataUri) (fontFormatInCss (url font))
             else []
         | None \<Rightarrow> [])
      else [])"

definition fontCssOf :: "(string \<rightharpoonup> string) \<Rightarrow> FontInfo \<Rightarrow> string" where
  "fontCssOf m font = fontFaceOf m font @ pickerLabelCss font @ contentClassCss font"

definition warningsOf :: "(string \<rightharpoonup> string) \<Rightarrow> FontInfo \<Rightarrow> event list" where
  "warningsOf m font =
     (if \<not> isExternalCssLink font \<and> \<not> isExternalFontFile font \<and> isLocalFontFile font \<and>
         (case object_get m (name font) of Some dataUri \<Rightarrow> \<not> truthy dataUri | None \<Rightarrow> True)
      then [ConsoleWarn (''Font data URI not found for '' @ name font @
                           ''. Skipping @font-face injection.'')]
      else [])"

text \<open>The elements of a document that carry a given id.\<close>

definition elements_with_id :: "string \<Rightarrow> document \<Rightarrow> element list" where
  "elements_with_id i d = filter (\<lambda>e. elem_id e = i) (head d @ body d)"

subsection \<open>Cleanup\<close>

definition remove_by_id :: "string \<Rightarrow> document \<Rightarrow> document" where
  "remove_by_id i d = (case getElementById d i of Some r \<Rightarrow> remove r d | None \<Rightarrow> d)"

definition cleanupFontStyles :: "FontInfo list \<Rightarrow> document \<Rightarrow> document" where
  "cleanupFontStyles fonts d =
     foldl (\<lambda>acc font. remove_by_id (linkId font) acc) (remove_by_id styleId d) fonts"

subsection \<open>The orchestrator\<close>

text \<open>
  The callback of \<^verbatim>\<open>fonts.map\<close>, on the map collected so far and the events so far; it
  returns the state of the callback's promise as well.
\<close>

definition loadFont ::
  "network \<Rightarrow> FontInfo \<Rightarrow> (string \<rightharpoonup> string) \<times> event list
     \<Rightarrow> unit promise \<times> (string \<rightharpoonup> string) \<times> event list" where
  "loadFont net font = (\<lambda>(loaded, evs).
     if url font \<noteq> [] \<and> \<not> startsWith (url font) ''http'' then
       (case getFontDataUri net (url font) of
          (Fulfilled None, es) \<Rightarrow> (Fulfilled (), loaded, evs @ es)
        | (Fulfilled (Some dataUri), es) \<Rightarrow>
            (Fulfilled (),
             if dataUri \<noteq> [] then object_set loaded (name font) dataUri else loaded,
             evs @ es)
        | (Rejected e, es) \<Rightarrow> (Rejected e, loaded, evs @ es)
        | (Pending, es) \<Rightarrow> (Pending, loaded, evs @ es))
     else (Fulfilled (), loaded, evs))"

fun loadFonts ::
  "network \<Rightarrow> FontInfo list \<Rightarrow> (string \<rightharpoonup> string) \<times> event list
     \<Rightarrow> unit promise list \<times> (string \<rightharpoonup> string) \<times> event list" where
  "loadFonts net [] (loaded, evs) = ([], loaded, evs)"
| "loadFonts net (font # fonts) (loaded, evs) =
     (case loadFont net font (loaded, evs) of
        (p, loaded', evs') \<Rightarrow>
          (case loadFonts net fonts (loaded', evs') of
             (ps, loaded'', evs'') \<Rightarrow> (p # ps, loaded'', evs'')))"

text \<open>
  \<^verbatim>\<open>Promise.all\<close>: rejected as soon as one of the promises is, fulfilled when all of
  them are, pending otherwise.
\<close>

fun first_rejection :: "'a promise list \<Rightarrow> js_error option" where
  "first_rejection [] = None"
| "first_rejection (Rejected e # ps) = Some e"
| "first_rejection (_ # ps) = first_rejection ps"

fun fulfilled_values :: "'a promise list \<Rightarrow> 'a list option" where
  "fulfilled_values [] = Some []"
| "fulfilled_values (Fulfilled v # ps) = map_option (\<lambda>vs. v # vs) (fulfilled_values ps)"
| "fulfilled_values (_ # ps) = None"

definition Promise_all :: "'a promise list \<Rightarrow> 'a list promise" where
  "Promise_all ps =
     (case first_rejection ps of
        Some e \<Rightarrow> Rejected e
      | None \<Rightarrow> (case fulfilled_values ps of Some vs \<Rightarrow> Fulfilled vs | None \<Rightarrow> Pending))"

text \<open>
  \<^verbatim>\<open>applyFonts\<close>, on the registry and the document. It returns the state of its promise,
  the registry and the document it leaves, and the events in order. The callbacks of
  \<^verbatim>\<open>fonts.map\<close> run concurrently and settle in an order the network decides: the
  parameter \<open>settled\<close> is that order, a permutation of the set. The map is written and
  the console is written to in that order, and \<^verbatim>\<open>Promise.all\<close> is rejected with the
  rejection that comes first in it; the events of one callback are kept together. The
  statements after \<^verbatim>\<open>await Promise.all(...)\<close> run only when that promise is fulfilled; an
  exception of the registrar rejects the promise of \<^verbatim>\<open>applyFonts\<close> before the injector
  is called.
\<close>

definition applyFonts ::
  "network \<Rightarrow> FontInfo list \<Rightarrow> FontInfo list \<Rightarrow> quill \<times> document
     \<Rightarrow> unit promise \<times> (quill \<times> document) \<times> event list" where
  "applyFonts net settled fonts = (\<lambda>(q, d).
     (case loadFonts net settled (Map.empty, []) of
        (ps, loadedFontDataUris, evs) \<Rightarrow>
          (case Promise_all ps of
             Rejected e \<Rightarrow> (Rejected e, (q, d), evs)
           | Pending \<Rightarrow> (Pending, (q, d), evs)
           | Fulfilled _ \<Rightarrow>
               (case registerQuillFonts fonts q of
                  Inl e \<Rightarrow> (Rejected e, (q, d), evs @ [Call_registerQuillFonts])
                | Inr q' \<Rightarrow>
                    (case injectFontStyles fonts loadedFontDataUris d of
                       (d', console) \<Rightarrow>
                         (Fulfilled (), (q', d'),
                          evs @ [Call_registerQuillFonts, Call_injectFontStyles] @ console))))))"

text \<open>
  The Data-URI Map the orchestrator has collected when the callbacks have settled in a
  given order, and the fetches that fail: the request is rejected, the response is not
  ok, or its body cannot be read.
\<close>

definition dataUriMap :: "network \<Rightarrow> FontInfo list \<Rightarrow> (string \<rightharpoonup> string)" where
  "dataUriMap net settled = fst (snd (loadFonts net settled (Map.empty, [])))"

definition fetch_fails :: "network \<Rightarrow> string \<Rightarrow> bool" where
  "fetch_fails net u =
     (case net u of
        Rejected e \<Rightarrow> True
      | Fulfilled resp \<Rightarrow>
          \<not> ok resp \<or> (case blob_of resp of Rejected e \<Rightarrow> True | _ \<Rightarrow> False)
      | Pending \<Rightarrow> False)"

text \<open>
  The ids the injector gives to elements for a set of descriptors, and a document without
  the elements whose id is in a given set.
\<close>

definition font_ids :: "FontInfo list \<Rightarrow> string set" where
  "font_ids fonts = insert styleId (linkId ` set fonts)"

definition without_ids :: "string set \<Rightarrow> document \<Rightarrow> document" where
  "without_ids I d =
     d\<lparr>head := filter (\<lambda>e. elem_id e \<notin> I) (head d),
       body := filter (\<lambda>e. elem_id e \<notin> I) (body d)\<rparr>"

subsection \<open>Example data\<close>

text \<open>The descriptors and the document the properties below are tried on.\<close>

definition example_arial :: FontInfo where
  "example_arial =
     \<lparr>name = ''Arial'', quillValue = ''arial'', url = [], cssFamily = ''Arial, sans-serif''\<rparr>"

definition example_custom :: FontInfo where
  "example_custom =
     \<lparr>name = ''Custom'', quillValue = ''custom-font'', url = ''/fonts/custom.ttf'',
      cssFamily = ''Custom''\<rparr>"

definition example_roboto :: FontInfo where
  "example_roboto =
     \<lparr>name = ''Roboto'', quillValue = ''roboto'',
      url = ''https://fonts.googleapis.com/css?family=Roboto'', cssFamily = ''Roboto''\<rparr>"

definition example_remote :: FontInfo where
  "example_remote =
     \<lparr>name = ''Remote'', quillValue = ''remote'', url = ''https://cdn.example/fonts/remote'',
      cssFamily = ''Remote''\<rparr>"

definition example_constructor :: FontInfo where
  "example_constructor =
     \<lparr>name = ''constructor'', quillValue = ''constructor-font'',
      url = ''/fonts/constructor.ttf'', cssFamily = ''Constructor, serif''\<rparr>"

definition empty_document :: document where
  "empty_document = \<lparr>head = [], body = []\<rparr>"

definition example_page :: document where
  "example_page =
     \<lparr>head = [\<lparr>tagName = ''title'', elem_id = [], rel = [], href = [], innerHTML = ''Editor''\<rparr>],
      body = [\<lparr>tagName = ''div'', elem_id = ''root'', rel = [], href = [], innerHTML = []\<rparr>]\<rparr>"

definition example_styled_page :: document where
  "example_styled_page =
     \<lparr>head = [\<lparr>tagName = ''style'', elem_id = ''quill-dynamic-font-style'', rel = [],
                href = [], innerHTML = ''.ql-font-old { font-family: Old; }''\<rparr>],
      body = []\<rparr>"

definition example_missing :: FontInfo where
  "example_missing =
     \<lparr>name = ''Missing'', quillValue = ''missing'', url = ''/fonts/missing.woff'',
      cssFamily = ''Missing''\<rparr>"

definition example_network :: network where
  "example_network u =
     (if u = ''/fonts/custom.ttf'' then
        Fulfilled \<lparr>ok = True, statusText = ''OK'',
                   blob_of = Fulfilled (Blob (Some ''data:font/ttf;base64,AAEAAA==''))\<rparr>
      else Fulfilled \<lparr>ok = False, statusText = ''Not Found'', blob_of = Pending\<rparr>)"

definition example_quill :: quill where
  "example_quill =
     \<lparr>imports_of = [''formats/font'' \<mapsto> 0],
      classes = (\<lambda>_. \<lparr>blotName = ''font'', whitelist = [''serif'', ''monospace'']\<rparr>),
      register_calls = []\<rparr>"

section \<open>Properties\<close>

subsection \<open>Splitting\<close>

lemma split_on_nonempty: "split_on sep s \<noteq> []"
  by (induction s) (auto split: list.splits)

lemma split_on_no_sep: "sep \<notin> set s \<Longrightarrow> split_on sep s = [s]"
  by (induction s) auto

lemma split_on_sep_tl: "sep \<in> set s \<Longrightarrow> tl (split_on sep s) \<noteq> []"
  using split_on_nonempty [of sep] by (induction s) (auto split: list.splits)

lemma last_split_on: "last (split_on sep s) = rev (takeWhile (\<lambda>c. c \<noteq> sep) (rev s))"
proof (induction s)
  case Nil
  show ?case by simp
next
  case (Cons c cs)
  show ?case
  proof (cases "c = sep")
    case True
    with Cons split_on_nonempty [of sep cs] show ?thesis
      by (simp add: takeWhile_append)
  next
    case False
    obtain seg segs where sp: "split_on sep cs = seg # segs"
      using split_on_nonempty [of sep cs] by (cases "split_on sep cs") auto
    show ?thesis
    proof (cases "sep \<in> set cs")
      case True
      then have "segs \<noteq> []"
        using sp split_on_sep_tl [of sep cs] by simp
      with Cons sp False True show ?thesis
        by (auto simp: takeWhile_append)
    next
      case nosep: False
      with False show ?thesis
        by (simp add: split_on_no_sep takeWhile_append)
    qed
  qed
qed

text \<open>The extension the code computes is the extension of the specification.\<close>

lemma extension_of_url:
  "map_option toLowerCase (pop (split_on CHR ''.'' u)) = Some (fileExtension u)"
  by (simp add: fileExtension_def pop_def split_on_nonempty last_split_on)

subsection \<open>The MIME table\<close>

text \<open>
  Claim C9. For every URL string, the MIME type derived from its file extension is
  font/ttf for ttf, font/otf for otf, font/woff for woff, font/woff2 for woff2,
  application/vnd.ms-fontobject for eot, and application/octet-stream for every other
  extension. The extension is the lower-cased text after the last dot.
\<close>

theorem getFontMimeTypeFromUrl_table:
  "getFontMimeTypeFromUrl u =
     (if fileExtension u = ''ttf'' then ''font/ttf''
      else if fileExtension u = ''otf'' then ''font/otf''
      else if fileExtension u = ''woff'' then ''font/woff''
      else if fileExtension u = ''woff2'' then ''font/woff2''
      else if fileExtension u = ''eot'' then ''application/vnd.ms-fontobject''
      else ''application/octet-stream'')"
  by (simp add: getFontMimeTypeFromUrl_def extension_of_url)

subsection \<open>The data-URI loader\<close>

text \<open>
  Claim C2. For every input string, the loader returns null at once, without any fetch,
  when the string is empty or begins with http: the promise is fulfilled with null and
  the list of events is empty.
\<close>

theorem getFontDataUri_skips:
  "fontUrl = [] \<or> startsWith fontUrl ''http'' \<Longrightarrow>
   getFontDataUri net fontUrl = (Fulfilled None, [])"
  by (auto simp: getFontDataUri_def)

theorem getFontDataUri_skips_witness:
  "(''https://fonts.example/a.ttf'' = [] \<or> startsWith ''https://fonts.example/a.ttf'' ''http'') \<and>
   getFontDataUri
     (\<lambda>u. Fulfilled \<lparr>ok = True, statusText = ''OK'',
                      blob_of = Fulfilled (Blob (Some ''data:font/ttf;base64,AAEAAA==''))\<rparr>)
     ''https://fonts.example/a.ttf'' = (Fulfilled None, []) \<and>
   getFontDataUri
     (\<lambda>u. Fulfilled \<lparr>ok = True, statusText = ''OK'',
                      blob_of = Fulfilled (Blob (Some ''data:font/ttf;base64,AAEAAA==''))\<rparr>)
     [] = (Fulfilled None, [])"
  using getFontDataUri_skips [of "''https://fonts.example/a.ttf''"]
    getFontDataUri_skips [of "[]"]
  by (simp add: startsWith_def)

text \<open>
  What the \<^verbatim>\<open>catch\<close> clause does handle: a request that fails, a response that is not
  ok, a body that cannot be read. Each gives null, after one line on the console.
\<close>

lemma getFontDataUri_fetch_failure:
  assumes "\<not> startsWith fontUrl ''http''" and "fontUrl \<noteq> []"
    and "(\<exists>e. net fontUrl = Rejected e) \<or>
         (\<exists>resp. net fontUrl = Fulfilled resp \<and> (\<not> ok resp \<or> (\<exists>e. blob_of resp = Rejected e)))"
  shows "getFontDataUri net fontUrl =
     (Fulfilled None,
      [Fetch fontUrl, ConsoleError (''Error loading font from '' @ fontUrl @ '':'')])"
  using assms by (auto simp: getFontDataUri_def try_block_def)

text \<open>
  Claim C1. The claim is that every failure, the failure of the FileReader included,
  ends in a null result and that the promise never rejects. On a local URL whose
  request succeeds and whose blob the FileReader cannot read, the promise returned by
  the loader is rejected: the FileReader promise is returned from the \<^verbatim>\<open>try\<close> block
  without being awaited there.
\<close>

theorem getFontDataUri_reader_failure_rejects:
  "getFontDataUri
     (\<lambda>u. Fulfilled \<lparr>ok = True, statusText = ''OK'', blob_of = Fulfilled (Blob None)\<rparr>)
     ''/fonts/custom.ttf''
   = (Rejected FileReaderError,
      [Fetch ''/fonts/custom.ttf'', ConsoleError ''FileReader error:''])"
  by (simp add: getFontDataUri_def try_block_def readAsDataURL_promise_def startsWith_def)

subsection \<open>The attributor registrar\<close>

text \<open>
  Claim C8. For every set of descriptors and every registry that has the font format,
  the registrar leaves the whitelist of the font attributor class equal to the sequence
  of the descriptors' quillValues, whatever the whitelist was, and registers the class
  again with the overwrite flag set; the class is then found under the key made of its
  name. For the set that holds the one descriptor Arial, the whitelist is [arial].
\<close>

theorem registerQuillFonts_whitelist:
  assumes "Quill_import q ''formats/font'' = Some a"
  shows "\<exists>q'. registerQuillFonts fonts q = Inr q' \<and>
           whitelist (classes q' a) = map quillValue fonts \<and>
           register_calls q' = register_calls q @ [(a, True)] \<and>
           Quill_import q' (''formats/'' @ blotName (classes q' a)) = Some a"
  using assms by (simp add: registerQuillFonts_def Quill_register_def Quill_import_def)

theorem registerQuillFonts_whitelist_witness:
  "Quill_import
     \<lparr>imports_of = [''formats/font'' \<mapsto> 0],
      classes = (\<lambda>_. \<lparr>blotName = ''font'', whitelist = [''serif'', ''monospace'']\<rparr>),
      register_calls = []\<rparr> ''formats/font'' = Some 0 \<and>
   (\<exists>q'. registerQuillFonts
       [\<lparr>name = ''Arial'', quillValue = ''arial'', url = [], cssFamily = ''Arial, sans-serif''\<rparr>]
       \<lparr>imports_of = [''formats/font'' \<mapsto> 0],
        classes = (\<lambda>_. \<lparr>blotName = ''font'', whitelist = [''serif'', ''monospace'']\<rparr>),
        register_calls = []\<rparr> = Inr q' \<and>
      whitelist (classes q' 0) = [''arial''] \<and> register_calls q' = [(0, True)] \<and>
      Quill_import q' ''formats/font'' = Some 0)"
  using registerQuillFonts_whitelist
    [of "\<lparr>imports_of = [''formats/font'' \<mapsto> 0],
          classes = (\<lambda>_. \<lparr>blotName = ''font'', whitelist = [''serif'', ''monospace'']\<rparr>),
          register_calls = []\<rparr>"
        0
        "[\<lparr>name = ''Arial'', quillValue = ''arial'', url = [],
            cssFamily = ''Arial, sans-serif''\<rparr>]"]
  by (auto simp: Quill_import_def registerQuillFonts_def Quill_register_def)

subsection \<open>Looking elements up\<close>

lemma index_of_id_Some:
  "index_of_id i es = Some k \<Longrightarrow> k < length es \<and> elem_id (es ! k) = i"
  by (induction es arbitrary: k) (auto split: if_splits)

lemma index_of_id_None: "index_of_id i es = None \<longleftrightarrow> filter (\<lambda>e. elem_id e = i) es = []"
  by (induction es) auto

lemma index_of_id_append:
  "index_of_id i (es @ [e]) =
     (case index_of_id i es of
        Some k \<Rightarrow> Some k
      | None \<Rightarrow> if elem_id e = i then Some (length es) else None)"
  by (induction es) (auto split: option.splits)

lemma index_of_id_cong:
  "map elem_id es = map elem_id es' \<Longrightarrow> index_of_id i es = index_of_id i es'"
proof (induction es arbitrary: es')
  case Nil
  then show ?case by simp
next
  case (Cons e es)
  then obtain e' es'' where "es' = e' # es''" by (cases es') auto
  with Cons show ?case by auto
qed

lemma map_elem_id_update:
  "map elem_id (es[k := (es ! k)\<lparr>innerHTML := t\<rparr>]) = map elem_id es"
  by (cases "k < length es")
     (simp_all add: map_update list_update_same_conv list_update_beyond)

lemma index_of_id_update:
  "index_of_id i (es[k := (es ! k)\<lparr>innerHTML := t\<rparr>]) = index_of_id i es"
  by (rule index_of_id_cong) (rule map_elem_id_update)

lemma getElementById_set_innerHTML:
  "getElementById (set_innerHTML r t d) i = getElementById d i"
  by (cases r)
     (simp_all add: getElementById_def set_innerHTML_def index_of_id_update
        split: option.splits)

lemma getElementById_append_other:
  "elem_id e \<noteq> i \<Longrightarrow> getElementById (head_appendChild e d) i = getElementById d i"
  by (simp add: getElementById_def head_appendChild_def index_of_id_append
      split: option.splits)

lemma getElementById_append_new:
  "getElementById d (elem_id e) = None \<Longrightarrow>
   getElementById (head_appendChild e d) (elem_id e) = Some (InHead (length (head d)))"
  by (simp add: getElementById_def head_appendChild_def index_of_id_append
      split: option.splits)

subsection \<open>The loop of the injector, taken apart\<close>

lemma injectFont_parts:
  "injectFont m font (d, css, con) =
     (ensureLink font d, css @ fontCssOf m font, con @ warningsOf m font)"
  by (auto simp: injectFont_def ensureLink_def fontCssOf_def fontFaceOf_def warningsOf_def
      split: option.splits)

lemma injectFont_loop:
  "foldl (\<lambda>acc font. injectFont m font acc) (d, css, con) fonts =
     (foldl (\<lambda>acc font. ensureLink font acc) d fonts,
      css @ concat (map (fontCssOf m) fonts),
      con @ concat (map (warningsOf m) fonts))"
  by (induction fonts arbitrary: d css con) (simp_all add: injectFont_parts)

lemma ensureLink_preserves:
  "getElementById d i = Some r \<Longrightarrow> getElementById (ensureLink font d) i = Some r"
  by (cases "linkId font = i") (auto simp: ensureLink_def getElementById_append_other)

lemma ensureLink_present:
  "isExternalCssLink font \<Longrightarrow> getElementById (ensureLink font d) (linkId font) \<noteq> None"
  using getElementById_append_new
    [of d "(createElement ''link'')
             \<lparr>elem_id := linkId font, rel := ''stylesheet'', href := url font\<rparr>"]
  by (auto simp: ensureLink_def)

lemma ensureLink_fixed:
  "isExternalCssLink font \<longrightarrow> getElementById d (linkId font) \<noteq> None \<Longrightarrow>
   ensureLink font d = d"
  by (auto simp: ensureLink_def)

lemma ensureLinks_preserves:
  "getElementById d i = Some r \<Longrightarrow>
   getElementById (foldl (\<lambda>acc font. ensureLink font acc) d fonts) i = Some r"
  by (induction fonts arbitrary: d) (simp_all add: ensureLink_preserves)

lemma ensureLinks_present:
  "font \<in> set fonts \<Longrightarrow> isExternalCssLink font \<Longrightarrow>
   getElementById (foldl (\<lambda>acc font. ensureLink font acc) d fonts) (linkId font) \<noteq> None"
proof (induction fonts arbitrary: d)
  case Nil
  then show ?case by simp
next
  case (Cons g gs)
  show ?case
  proof (cases "font = g")
    case True
    obtain r where "getElementById (ensureLink g d) (linkId g) = Some r"
      using ensureLink_present [of g d] Cons.prems True by auto
    then show ?thesis
      using True by (simp add: ensureLinks_preserves)
  next
    case False
    with Cons show ?thesis by simp
  qed
qed

lemma ensureLinks_fixed:
  "(\<forall>font\<in>set fonts. isExternalCssLink font \<longrightarrow> getElementById d (linkId font) \<noteq> None) \<Longrightarrow>
   foldl (\<lambda>acc font. ensureLink font acc) d fonts = d"
  by (induction fonts) (simp_all add: ensureLink_fixed)

lemma ensureStyle_found:
  "getElementById (snd (ensureStyle d)) styleId = Some (fst (ensureStyle d))"
  using getElementById_append_new [of d "(createElement ''style'')\<lparr>elem_id := styleId\<rparr>"]
  by (auto simp: ensureStyle_def split: option.splits)

lemma injectFontStyles_parts:
  "injectFontStyles fonts m d =
     (set_innerHTML (fst (ensureStyle d)) (concat (map (fontCssOf m) fonts))
        (foldl (\<lambda>acc font. ensureLink font acc) (snd (ensureStyle d)) fonts),
      concat (map (warningsOf m) fonts))"
  by (simp add: injectFontStyles_def injectFont_loop split: prod.splits)

lemma styleSheet_set_innerHTML:
  "getElementById d styleId = Some r \<Longrightarrow> styleSheet (set_innerHTML r t d) = t"
  unfolding styleSheet_def getElementById_set_innerHTML
  by (cases r)
     (auto simp: set_innerHTML_def getElementById_def dest: index_of_id_Some
        split: option.splits)

lemma styleSheet_injectFontStyles:
  "styleSheet (fst (injectFontStyles fonts m d)) = concat (map (fontCssOf m) fonts)"
  by (simp add: injectFontStyles_parts styleSheet_set_innerHTML ensureLinks_preserves
      ensureStyle_found)

lemma update_innerHTML_idem:
  "es[k := (es[k := (es ! k)\<lparr>innerHTML := t\<rparr>] ! k)\<lparr>innerHTML := t\<rparr>]
     = es[k := (es ! k)\<lparr>innerHTML := t\<rparr>]"
  by (cases "k < length es") (simp_all add: list_update_beyond)

lemma set_innerHTML_idem:
  "set_innerHTML r t (set_innerHTML r t d) = set_innerHTML r t d"
  by (cases r) (simp_all add: set_innerHTML_def update_innerHTML_idem)

lemma injectFontStyles_idem:
  "fst (injectFontStyles fonts m (fst (injectFontStyles fonts m d))) =
   fst (injectFontStyles fonts m d)"
proof -
  let ?r = "fst (ensureStyle d)"
  let ?css = "concat (map (fontCssOf m) fonts)"
  let ?D = "foldl (\<lambda>acc font. ensureLink font acc) (snd (ensureStyle d)) fonts"
  let ?d1 = "set_innerHTML ?r ?css ?D"
  have d1: "fst (injectFontStyles fonts m d) = ?d1"
    by (simp add: injectFontStyles_parts)
  have style: "getElementById ?d1 styleId = Some ?r"
    by (simp add: getElementById_set_innerHTML ensureLinks_preserves ensureStyle_found)
  then have es: "ensureStyle ?d1 = (?r, ?d1)"
    by (simp add: ensureStyle_def)
  have "\<forall>font\<in>set fonts.
          isExternalCssLink font \<longrightarrow> getElementById ?d1 (linkId font) \<noteq> None"
    by (simp add: getElementById_set_innerHTML ensureLinks_present)
  then have "foldl (\<lambda>acc font. ensureLink font acc) ?d1 fonts = ?d1"
    by (rule ensureLinks_fixed)
  then have "fst (injectFontStyles fonts m ?d1) = set_innerHTML ?r ?css ?d1"
    by (simp add: injectFontStyles_parts es)
  then show ?thesis
    by (simp add: d1 set_innerHTML_idem)
qed

lemma styleSheet_split:
  "styleSheet (fst (injectFontStyles (xs @ font # ys) m d)) =
     styleSheet (fst (injectFontStyles xs m d')) @ fontCssOf m font @
     styleSheet (fst (injectFontStyles ys m d''))"
  by (simp add: styleSheet_injectFontStyles)

lemma warning_logged:
  "warningsOf m font = [w] \<Longrightarrow> w \<in> set (snd (injectFontStyles (xs @ font # ys) m d))"
  by (simp add: injectFontStyles_parts)

lemma skeleton_set_innerHTML: "skeleton (set_innerHTML r t d) = skeleton d"
proof -
  have "map (\<lambda>e. (tagName e, elem_id e, rel e, href e)) (es[k := (es ! k)\<lparr>innerHTML := t\<rparr>]) =
        map (\<lambda>e. (tagName e, elem_id e, rel e, href e)) es" for es :: "element list" and k
    by (cases "k < length es")
       (simp_all add: map_update list_update_same_conv list_update_beyond)
  then show ?thesis
    by (cases r) (simp_all add: skeleton_def set_innerHTML_def)
qed

lemma skeleton_without:
  "ensureLink font = (\<lambda>d. d) \<Longrightarrow>
   skeleton (fst (injectFontStyles (xs @ font # ys) m d)) =
   skeleton (fst (injectFontStyles (xs @ ys) m d))"
  by (simp add: injectFontStyles_parts skeleton_set_innerHTML)

lemma fontFormatInCss_ttf: "fileExtension u = ''ttf'' \<Longrightarrow> fontFormatInCss u = ''truetype''"
  by (simp add: fontFormatInCss_def getFontMimeTypeFromUrl_def extension_of_url)

lemma local_not_external:
  "isLocalFontFile font \<Longrightarrow> \<not> isExternalCssLink font \<and> \<not> isExternalFontFile font"
  by (simp add: isLocalFontFile_def isExternalCssLink_def isExternalFontFile_def)

subsection \<open>What the injector emits for one descriptor\<close>

text \<open>
  What the injector does for a local descriptor when the lookup behaves as the comment
  in the code expects: a non-empty own entry gives the @font-face rule with that entry as
  its source; no own entry, under a name that is not a member of \<^verbatim>\<open>Object.prototype\<close>,
  or an empty own entry, gives no rule and the warning.
\<close>

lemma local_font_round:
  assumes "isLocalFontFile font"
  shows "(m (name font) = Some dataUri \<and> dataUri \<noteq> [] \<longrightarrow>
            injectFont m font (d, css, con) =
              (d, css @ fontFaceCss (name font) dataUri (fontFormatInCss (url font)) @
                    pickerLabelCss font @ contentClassCss font, con)) \<and>
         (m (name font) = Some [] \<or>
          m (name font) = None \<and> name font \<notin> set Object_prototype_members \<longrightarrow>
            injectFont m font (d, css, con) =
              (d, css @ pickerLabelCss font @ contentClassCss font,
               con @ [ConsoleWarn (''Font data URI not found for '' @ name font @
                                     ''. Skipping @font-face injection.'')]))"
  using assms local_not_external [OF assms]
  by (auto simp: injectFont_def object_get_def truthy_def template_text_def)

lemma styleSheet_no_fonts: "styleSheet (fst (injectFontStyles [] m d)) = []"
  by (simp add: styleSheet_injectFontStyles)

text \<open>
  Claim C4. The claim is that a local descriptor gets an @font-face rule from its entry
  in the Data-URI Map and, when the map has no entry under its name, no rule and a
  warning. The map is a plain object, and the code reads it with
  \<^verbatim>\<open>loadedFontDataUris[font.name]\<close>: for a local descriptor named \<^verbatim>\<open>constructor\<close> and
  a map with no entry at all (what the orchestrator passes when the fetch has failed),
  the lookup finds the inherited member \<^verbatim>\<open>Object.prototype.constructor\<close>, which is
  truthy. The injector then emits an @font-face rule whose source is the text of that
  function, with format truetype, and writes nothing to the console.
\<close>

theorem inherited_member_taken_for_data_uri:
  \<open>isLocalFontFile example_constructor \<and>
   Map.empty (name example_constructor) = (None :: string option) \<and>
   injectFontStyles [example_constructor] Map.empty empty_document =
     (\<lparr>head =
         [\<lparr>tagName = ''style'', elem_id = ''quill-dynamic-font-style'', rel = [], href = [],
           innerHTML =
          ''\<newline>'' @
          ''@font-face {\<newline>'' @
          ''  font-family: 'constructor';\<newline>'' @
          ''  src: url('function Object() { [native code] }') format('truetype');\<newline>'' @
          ''  font-weight: normal; /* Customize if your font has specific weights */\<newline>'' @
          ''  font-style: normal;  /* Customize if your font has specific styles */\<newline>'' @
          ''  font-display: swap; /* Add this for better font loading behavior */\<newline>'' @
          ''}\<newline>'' @
          ''\<newline>'' @
          ''/* Styles for font picker dropdown label */\<newline>'' @
          ''.ql-picker.ql-font .ql-picker-label[data-value="constructor-font"]::before,\<newline>'' @
          ''.ql-picker.ql-font .ql-picker-item[data-value="constructor-font"]::before {\<newline>'' @
          ''  content: "constructor"; /* Displays the user-friendly name in the dropdown */\<newline>'' @
          ''  font-family: Constructor, serif; /* Applies the cssFamily (e.g., 'Virgin Money Loop, sans-serif') */\<newline>'' @
          ''}\<newline>'' @
          ''/* Styles for actual content in the editor */\<newline>'' @
          ''.ql-font-constructor-font {\<newline>'' @
          ''  font-family: Constructor, serif; /* Applies the cssFamily (e.g., 'Virgin Money Loop, sans-serif') */\<newline>'' @
          ''}\<newline>''\<rparr>],
       body = []\<rparr>,
      [])\<close>
proof -
  have loc: "isLocalFontFile example_constructor"
    by (simp add: isLocalFontFile_def example_constructor_def startsWith_def)
  have fmt: "fontFormatInCss (url example_constructor) = ''truetype''"
    by (rule fontFormatInCss_ttf)
       (simp add: fileExtension_def example_constructor_def toLowerCase_def
          toLowerCase_char_def)
  have face: "fontFaceOf Map.empty example_constructor =
      fontFaceCss ''constructor'' ''function Object() { [native code] }'' ''truetype''"
    using loc local_not_external [OF loc] fmt
    by (simp add: fontFaceOf_def object_get_def truthy_def template_text_def
        Object_prototype_members_def example_constructor_def)
  have quiet: "warningsOf Map.empty example_constructor = []"
    using loc
    by (simp add: warningsOf_def object_get_def truthy_def Object_prototype_members_def
        example_constructor_def)
  have link: "ensureLink example_constructor = (\<lambda>d. d)"
    using local_not_external [OF loc] by (auto simp: ensureLink_def)
  have style: "ensureStyle empty_document =
      (InHead 0,
       \<lparr>head = [\<lparr>tagName = ''style'', elem_id = ''quill-dynamic-font-style'', rel = [],
                  href = [], innerHTML = []\<rparr>],
        body = []\<rparr>)"
    by (simp add: ensureStyle_def getElementById_def empty_document_def head_appendChild_def
        createElement_def styleId_def)
  have run: "injectFontStyles [example_constructor] Map.empty empty_document =
      (\<lparr>head = [\<lparr>tagName = ''style'', elem_id = ''quill-dynamic-font-style'', rel = [],
                  href = [],
                  innerHTML = fontFaceOf Map.empty example_constructor @
                    pickerLabelCss example_constructor @
                    contentClassCss example_constructor\<rparr>],
        body = []\<rparr>, [])"
    by (simp add: injectFontStyles_parts style link quiet fontCssOf_def set_innerHTML_def)
  show ?thesis
    using loc unfolding run face
    by (simp add: fontFaceCss_def pickerLabelCss_def contentClassCss_def
        example_constructor_def)
qed

text \<open>
  Claim C5. For every descriptor of the set, system fonts with an empty URL included,
  the round of the loop ends by appending the two scoping rules, written out below: the
  picker-label rule, keyed by data-value equal to the quillValue, with content the name
  and font-family the cssFamily, and the content-class rule .ql-font- followed by the
  quillValue, with font-family the cssFamily. The style sheet of the whole set holds them
  at the descriptor's place. For an empty URL nothing comes before them: no @font-face
  rule, no link, no warning.
\<close>

theorem scoping_rules_always_emitted:
  \<open>(let rules =
          ''\<newline>'' @ ''/* Styles for font picker dropdown label */\<newline>'' @
          ''.ql-picker.ql-font .ql-picker-label[data-value="'' @ quillValue font @
          ''"]::before,\<newline>'' @ ''.ql-picker.ql-font .ql-picker-item[data-value="'' @
          quillValue font @ ''"]::before {\<newline>'' @ ''  content: "'' @ name font @
          ''"; /* Displays the user-friendly name in the dropdown */\<newline>'' @
          ''  font-family: '' @ cssFamily font @
          ''; /* Applies the cssFamily (e.g., 'Virgin Money Loop, sans-serif') */\<newline>'' @
          ''}\<newline>'' @ ''/* Styles for actual content in the editor */\<newline>'' @
          ''.ql-font-'' @ quillValue font @ '' {\<newline>'' @ ''  font-family: '' @
          cssFamily font @
          ''; /* Applies the cssFamily (e.g., 'Virgin Money Loop, sans-serif') */\<newline>'' @
          ''}\<newline>''
    in \<exists>face.
         (\<forall>d css con. \<exists>d' con'.
            injectFont m font (d, css, con) = (d', css @ face @ rules, con')) \<and>
         styleSheet (fst (injectFontStyles (xs @ font # ys) m d0)) =
           styleSheet (fst (injectFontStyles xs m d0)) @ face @ rules @
           styleSheet (fst (injectFontStyles ys m d0)) \<and>
         (url font = [] \<longrightarrow>
            face = [] \<and>
            (\<forall>d css con. injectFont m font (d, css, con) = (d, css @ rules, con))))\<close>
proof -
  have empty_url: "url font = [] \<Longrightarrow> fontFaceOf m font = [] \<and> ensureLink font = (\<lambda>d. d) \<and>
      warningsOf m font = []"
    by (auto simp: fontFaceOf_def ensureLink_def warningsOf_def isExternalCssLink_def
        isExternalFontFile_def isLocalFontFile_def startsWith_def)
  have "\<exists>face.
      (\<forall>d css con. \<exists>d' con'.
         injectFont m font (d, css, con) =
           (d', css @ face @ pickerLabelCss font @ contentClassCss font, con')) \<and>
      styleSheet (fst (injectFontStyles (xs @ font # ys) m d0)) =
        styleSheet (fst (injectFontStyles xs m d0)) @ face @
        (pickerLabelCss font @ contentClassCss font) @
        styleSheet (fst (injectFontStyles ys m d0)) \<and>
      (url font = [] \<longrightarrow>
         face = [] \<and>
         (\<forall>d css con. injectFont m font (d, css, con) =
            (d, css @ pickerLabelCss font @ contentClassCss font, con)))"
    using empty_url
    by (intro exI [of _ "fontFaceOf m font"])
       (simp add: injectFont_parts styleSheet_split [of xs font ys m d0 d0 d0] fontCssOf_def)
  then show ?thesis
    by (simp add: Let_def pickerLabelCss_def contentClassCss_def)
qed

theorem scoping_rules_always_emitted_witness:
  \<open>url example_arial = [] \<and>
   injectFont Map.empty example_arial (empty_document, [], []) =
     (empty_document,
          ''\<newline>'' @
          ''/* Styles for font picker dropdown label */\<newline>'' @
          ''.ql-picker.ql-font .ql-picker-label[data-value="arial"]::before,\<newline>'' @
          ''.ql-picker.ql-font .ql-picker-item[data-value="arial"]::before {\<newline>'' @
          ''  content: "Arial"; /* Displays the user-friendly name in the dropdown */\<newline>'' @
          ''  font-family: Arial, sans-serif; /* Applies the cssFamily (e.g., 'Virgin Money Loop, sans-serif') */\<newline>'' @
          ''}\<newline>'' @
          ''/* Styles for actual content in the editor */\<newline>'' @
          ''.ql-font-arial {\<newline>'' @
          ''  font-family: Arial, sans-serif; /* Applies the cssFamily (e.g., 'Virgin Money Loop, sans-serif') */\<newline>'' @
          ''}\<newline>'',
      []) \<and>
   styleSheet (fst (injectFontStyles [example_arial] Map.empty empty_document)) =
          ''\<newline>'' @
          ''/* Styles for font picker dropdown label */\<newline>'' @
          ''.ql-picker.ql-font .ql-picker-label[data-value="arial"]::before,\<newline>'' @
          ''.ql-picker.ql-font .ql-picker-item[data-value="arial"]::before {\<newline>'' @
          ''  content: "Arial"; /* Displays the user-friendly name in the dropdown */\<newline>'' @
          ''  font-family: Arial, sans-serif; /* Applies the cssFamily (e.g., 'Virgin Money Loop, sans-serif') */\<newline>'' @
          ''}\<newline>'' @
          ''/* Styles for actual content in the editor */\<newline>'' @
          ''.ql-font-arial {\<newline>'' @
          ''  font-family: Arial, sans-serif; /* Applies the cssFamily (e.g., 'Virgin Money Loop, sans-serif') */\<newline>'' @
          ''}\<newline>''\<close>
proof -
  have u: "url example_arial = []"
    by (simp add: example_arial_def)
  have n: "name example_arial = ''Arial''" "quillValue example_arial = ''arial''"
    "cssFamily example_arial = ''Arial, sans-serif''"
    by (simp_all add: example_arial_def)
  show ?thesis
    using u scoping_rules_always_emitted [of example_arial Map.empty "[]" "[]" empty_document]
    by (auto simp: Let_def styleSheet_no_fonts n)
qed

text \<open>
  Claim C10. For every descriptor whose URL starts with http, does not match the
  CSS-service heuristic (it neither ends in .css nor contains family=) and has no
  recognised font extension (its MIME type is application/octet-stream), the round of
  the loop leaves the document as it is and appends the two scoping rules only; the
  style sheet of the whole set holds just these two rules at the descriptor's place, and
  the elements and the console output are those of the set without the descriptor.
\<close>

theorem unrecognised_remote_url_scoping_rules_only:
  assumes "startsWith (url font) ''http''"
    and "\<not> endsWith (toLowerCase (url font)) ''.css''"
    and "\<not> includes_str (url font) ''family=''"
    and "getFontMimeTypeFromUrl (url font) = ''application/octet-stream''"
  shows "injectFont m font (d, css, con) =
           (d, css @ pickerLabelCss font @ contentClassCss font, con) \<and>
         styleSheet (fst (injectFontStyles (xs @ font # ys) m d0)) =
           styleSheet (fst (injectFontStyles xs m d0)) @
           pickerLabelCss font @ contentClassCss font @
           styleSheet (fst (injectFontStyles ys m d0)) \<and>
         skeleton (fst (injectFontStyles (xs @ font # ys) m d0)) =
           skeleton (fst (injectFontStyles (xs @ ys) m d0)) \<and>
         snd (injectFontStyles (xs @ font # ys) m d0) = snd (injectFontStyles (xs @ ys) m d0)"
proof -
  have kinds: "\<not> isExternalCssLink font" "\<not> isExternalFontFile font" "\<not> isLocalFontFile font"
    using assms by (simp_all add: isExternalCssLink_def isExternalFontFile_def isLocalFontFile_def)
  then have parts: "ensureLink font = (\<lambda>d. d)" "fontFaceOf m font = []" "warningsOf m font = []"
    by (auto simp: ensureLink_def fontFaceOf_def warningsOf_def)
  have round: "injectFont m font (d, css, con) =
      (d, css @ pickerLabelCss font @ contentClassCss font, con)"
    using parts by (simp add: injectFont_parts fontCssOf_def)
  have sheet: "styleSheet (fst (injectFontStyles (xs @ font # ys) m d0)) =
      styleSheet (fst (injectFontStyles xs m d0)) @
      pickerLabelCss font @ contentClassCss font @
      styleSheet (fst (injectFontStyles ys m d0))"
    using parts by (simp add: styleSheet_split [of xs font ys m d0 d0 d0] fontCssOf_def)
  have console: "snd (injectFontStyles (xs @ font # ys) m d0) =
      snd (injectFontStyles (xs @ ys) m d0)"
    using parts by (simp add: injectFontStyles_parts)
  show ?thesis
    using round sheet console skeleton_without [OF parts(1), of xs ys m d0] by simp
qed

theorem unrecognised_remote_url_scoping_rules_only_witness:
  "startsWith (url example_remote) ''http'' \<and>
   \<not> endsWith (toLowerCase (url example_remote)) ''.css'' \<and>
   \<not> includes_str (url example_remote) ''family='' \<and>
   getFontMimeTypeFromUrl (url example_remote) = ''application/octet-stream'' \<and>
   injectFont Map.empty example_remote (empty_document, [], []) =
     (empty_document, pickerLabelCss example_remote @ contentClassCss example_remote, []) \<and>
   styleSheet (fst (injectFontStyles [example_remote] Map.empty empty_document)) =
     pickerLabelCss example_remote @ contentClassCss example_remote \<and>
   skeleton (fst (injectFontStyles [example_remote] Map.empty empty_document)) =
     skeleton (fst (injectFontStyles [] Map.empty empty_document))"
proof -
  have h1: "startsWith (url example_remote) ''http''"
    by (simp add: example_remote_def startsWith_def)
  have h2: "\<not> endsWith (toLowerCase (url example_remote)) ''.css''"
    by (simp add: example_remote_def endsWith_def toLowerCase_def toLowerCase_char_def)
  have h3: "\<not> includes_str (url example_remote) ''family=''"
    by (simp add: example_remote_def startsWith_def)
  have h4: "getFontMimeTypeFromUrl (url example_remote) = ''application/octet-stream''"
    by (simp add: getFontMimeTypeFromUrl_def pop_def example_remote_def toLowerCase_def
        toLowerCase_char_def)
  show ?thesis
    using h1 h2 h3 h4
      unrecognised_remote_url_scoping_rules_only [OF h1 h2 h3 h4,
        of Map.empty empty_document "[]" "[]" "[]" "[]" empty_document]
    by (simp add: styleSheet_no_fonts)
qed

subsection \<open>Elements by id\<close>

lemma getElementById_None_iff: "getElementById d i = None \<longleftrightarrow> elements_with_id i d = []"
proof -
  have "getElementById d i = None \<longleftrightarrow>
      index_of_id i (head d) = None \<and> index_of_id i (body d) = None"
    by (simp add: getElementById_def split: option.splits)
  then show ?thesis
    by (simp add: elements_with_id_def index_of_id_None)
qed

lemma linkId_eq: "linkId g = linkId f \<longleftrightarrow> quillValue g = quillValue f"
  by (simp add: linkId_def)

lemma linkId_not_styleId: "linkId g \<noteq> styleId"
  by (simp add: linkId_def styleId_def)

lemma filter_update_irrelevant:
  "\<not> P (es ! k) \<Longrightarrow> \<not> P x \<Longrightarrow> filter P (es[k := x]) = filter P es"
proof (induction es arbitrary: k)
  case Nil
  then show ?case by simp
next
  case (Cons e es)
  then show ?case by (cases k) auto
qed

lemma elements_with_id_set_innerHTML:
  assumes "getElementById d j = Some r" and "j \<noteq> i"
  shows "elements_with_id i (set_innerHTML r t d) = elements_with_id i d"
proof (cases r)
  case (InHead k)
  with assms have "elem_id (head d ! k) = j"
    by (auto simp: getElementById_def dest: index_of_id_Some split: option.splits)
  with assms InHead show ?thesis
    by (simp add: elements_with_id_def set_innerHTML_def filter_update_irrelevant)
next
  case (InBody k)
  with assms have "elem_id (body d ! k) = j"
    by (auto simp: getElementById_def dest: index_of_id_Some split: option.splits)
  with assms InBody show ?thesis
    by (simp add: elements_with_id_def set_innerHTML_def filter_update_irrelevant)
qed

lemma elements_with_id_append_other:
  "elem_id e \<noteq> i \<Longrightarrow> elements_with_id i (head_appendChild e d) = elements_with_id i d"
  by (simp add: elements_with_id_def head_appendChild_def)

lemma elements_with_id_append_new:
  "elements_with_id (elem_id e) d = [] \<Longrightarrow>
   elements_with_id (elem_id e) (head_appendChild e d) = [e]"
  by (simp add: elements_with_id_def head_appendChild_def)

lemma elements_with_id_ensureStyle:
  "i \<noteq> styleId \<Longrightarrow> elements_with_id i (snd (ensureStyle d)) = elements_with_id i d"
  by (simp add: ensureStyle_def elements_with_id_append_other split: option.splits)

lemma elements_with_id_ensureLink_other:
  "linkId g \<noteq> i \<Longrightarrow> elements_with_id i (ensureLink g d) = elements_with_id i d"
  by (simp add: ensureLink_def elements_with_id_append_other)

lemma elements_with_id_ensureLink_nonempty:
  assumes "elements_with_id i d \<noteq> []"
  shows "elements_with_id i (ensureLink g d) = elements_with_id i d"
proof (cases "linkId g = i")
  case True
  then show ?thesis
    using assms by (simp add: ensureLink_def getElementById_None_iff)
next
  case False
  then show ?thesis
    by (rule elements_with_id_ensureLink_other)
qed

lemma elements_with_id_ensureLink_new:
  assumes "isExternalCssLink g" and "elements_with_id (linkId g) d = []"
  shows "elements_with_id (linkId g) (ensureLink g d) =
     [\<lparr>tagName = ''link'', elem_id = linkId g, rel = ''stylesheet'', href = url g,
       innerHTML = []\<rparr>]"
  using assms
    elements_with_id_append_new
      [of "\<lparr>tagName = ''link'', elem_id = linkId g, rel = ''stylesheet'', href = url g,
            innerHTML = []\<rparr>" d]
  by (simp add: ensureLink_def getElementById_None_iff createElement_def)

lemma elements_with_id_ensureLinks_nonempty:
  "elements_with_id i d \<noteq> [] \<Longrightarrow>
   elements_with_id i (foldl (\<lambda>acc font. ensureLink font acc) d fonts) = elements_with_id i d"
  by (induction fonts arbitrary: d) (simp_all add: elements_with_id_ensureLink_nonempty)

lemma elements_with_id_ensureLinks_new:
  "distinct (map quillValue fonts) \<Longrightarrow> font \<in> set fonts \<Longrightarrow> isExternalCssLink font \<Longrightarrow>
   elements_with_id (linkId font) d = [] \<Longrightarrow>
   elements_with_id (linkId font) (foldl (\<lambda>acc font. ensureLink font acc) d fonts) =
     [\<lparr>tagName = ''link'', elem_id = linkId font, rel = ''stylesheet'', href = url font,
       innerHTML = []\<rparr>]"
proof (induction fonts arbitrary: d)
  case Nil
  then show ?case by simp
next
  case (Cons g gs)
  show ?case
  proof (cases "g = font")
    case True
    with Cons.prems show ?thesis
      by (simp add: elements_with_id_ensureLinks_nonempty elements_with_id_ensureLink_new)
  next
    case False
    with Cons.prems have "font \<in> set gs" and "quillValue g \<noteq> quillValue font"
      by auto
    then have "elements_with_id (linkId font) (ensureLink g d) = []"
      using Cons.prems by (simp add: elements_with_id_ensureLink_other linkId_eq)
    with Cons \<open>font \<in> set gs\<close> show ?thesis by simp
  qed
qed

lemma one_link_per_css_descriptor:
  assumes "distinct (map quillValue fonts)" and "font \<in> set fonts"
    and "isExternalCssLink font" and "elements_with_id (linkId font) d = []"
  shows "elements_with_id (linkId font) (fst (injectFontStyles fonts m d)) =
     [\<lparr>tagName = ''link'', elem_id = linkId font, rel = ''stylesheet'', href = url font,
       innerHTML = []\<rparr>]"
proof -
  let ?D = "foldl (\<lambda>acc font. ensureLink font acc) (snd (ensureStyle d)) fonts"
  have "getElementById ?D styleId = Some (fst (ensureStyle d))"
    by (simp add: ensureLinks_preserves ensureStyle_found)
  then have "elements_with_id (linkId font) (fst (injectFontStyles fonts m d)) =
      elements_with_id (linkId font) ?D"
    using linkId_not_styleId [of font]
    by (simp add: injectFontStyles_parts elements_with_id_set_innerHTML [of _ styleId])
  also have "\<dots> = [\<lparr>tagName = ''link'', elem_id = linkId font, rel = ''stylesheet'',
      href = url font, innerHTML = []\<rparr>]"
    using assms linkId_not_styleId [of font]
    by (simp add: elements_with_id_ensureLinks_new elements_with_id_ensureStyle)
  finally show ?thesis .
qed

lemma collected_text:
  "fst (snd (foldl (\<lambda>acc font. injectFont m font acc) (d, [], []) fonts)) =
     concat (map (fontCssOf m) fonts)"
  by (simp add: injectFont_loop)

text \<open>
  Claim C6. Whatever the document held before, the text of the style element after an
  injection is exactly the text the loop collects for the set, starting from the empty
  text: the assignment replaces what was there and adds nothing to it. So it is after a
  second injection, whatever was injected first. Injecting the same set a second time
  leaves the document as the first injection left it, so no link is added, removed or
  made anew. A descriptor that matches the CSS-service heuristic, in a set whose
  quillValues differ from one another and on a document that has no element with its
  link id yet, has exactly one element with the id font-link-quillValue after the
  injection, and after the second one: a link with rel stylesheet and href equal to the
  descriptor's URL.
\<close>

theorem reinjection_replaces_style_and_keeps_links:
  "styleSheet (fst (injectFontStyles fonts m d)) =
     fst (snd (foldl (\<lambda>acc font. injectFont m font acc) (d', [], []) fonts)) \<and>
   styleSheet (fst (injectFontStyles fonts' m' (fst (injectFontStyles fonts m d)))) =
     fst (snd (foldl (\<lambda>acc font. injectFont m' font acc) (d', [], []) fonts')) \<and>
   styleSheet (fst (injectFontStyles fonts' m' (fst (injectFontStyles fonts m d)))) =
     styleSheet (fst (injectFontStyles fonts' m' d)) \<and>
   fst (injectFontStyles fonts m (fst (injectFontStyles fonts m d))) =
     fst (injectFontStyles fonts m d) \<and>
   (distinct (map quillValue fonts) \<and> font \<in> set fonts \<and> isExternalCssLink font \<and>
    elements_with_id (linkId font) d = [] \<longrightarrow>
      elements_with_id (linkId font) (fst (injectFontStyles fonts m d)) =
        [\<lparr>tagName = ''link'', elem_id = ''font-link-'' @ quillValue font, rel = ''stylesheet'',
          href = url font, innerHTML = []\<rparr>] \<and>
      elements_with_id (linkId font)
          (fst (injectFontStyles fonts m (fst (injectFontStyles fonts m d)))) =
        [\<lparr>tagName = ''link'', elem_id = ''font-link-'' @ quillValue font, rel = ''stylesheet'',
          href = url font, innerHTML = []\<rparr>])"
  using one_link_per_css_descriptor [of fonts font d m]
  by (simp add: styleSheet_injectFontStyles collected_text injectFontStyles_idem linkId_def)

theorem reinjection_replaces_style_and_keeps_links_witness:
  \<open>distinct (map quillValue [example_arial, example_roboto]) \<and>
   example_roboto \<in> set [example_arial, example_roboto] \<and>
   isExternalCssLink example_roboto \<and>
   elements_with_id (linkId example_roboto) example_page = [] \<and>
   elements_with_id ''font-link-roboto''
       (fst (injectFontStyles [example_arial, example_roboto] Map.empty example_page)) =
     [\<lparr>tagName = ''link'', elem_id = ''font-link-roboto'', rel = ''stylesheet'',
       href = ''https://fonts.googleapis.com/css?family=Roboto'', innerHTML = []\<rparr>] \<and>
   elements_with_id ''font-link-roboto''
       (fst (injectFontStyles [example_arial, example_roboto] Map.empty
          (fst (injectFontStyles [example_arial, example_roboto] Map.empty example_page)))) =
     [\<lparr>tagName = ''link'', elem_id = ''font-link-roboto'', rel = ''stylesheet'',
       href = ''https://fonts.googleapis.com/css?family=Roboto'', innerHTML = []\<rparr>] \<and>
   styleSheet example_styled_page = ''.ql-font-old { font-family: Old; }'' \<and>
   styleSheet (fst (injectFontStyles [example_arial] Map.empty example_styled_page)) =
          ''\<newline>'' @
          ''/* Styles for font picker dropdown label */\<newline>'' @
          ''.ql-picker.ql-font .ql-picker-label[data-value="arial"]::before,\<newline>'' @
          ''.ql-picker.ql-font .ql-picker-item[data-value="arial"]::before {\<newline>'' @
          ''  content: "Arial"; /* Displays the user-friendly name in the dropdown */\<newline>'' @
          ''  font-family: Arial, sans-serif; /* Applies the cssFamily (e.g., 'Virgin Money Loop, sans-serif') */\<newline>'' @
          ''}\<newline>'' @
          ''/* Styles for actual content in the editor */\<newline>'' @
          ''.ql-font-arial {\<newline>'' @
          ''  font-family: Arial, sans-serif; /* Applies the cssFamily (e.g., 'Virgin Money Loop, sans-serif') */\<newline>'' @
          ''}\<newline>''\<close>
proof -
  have h1: "distinct (map quillValue [example_arial, example_roboto])"
    by (simp add: example_arial_def example_roboto_def)
  have h2: "isExternalCssLink example_roboto"
    by (simp add: isExternalCssLink_def example_roboto_def startsWith_def)
  have h3: "elements_with_id (linkId example_roboto) example_page = []"
    by (simp add: elements_with_id_def example_page_def linkId_def example_roboto_def)
  have q: "quillValue example_roboto = ''roboto''"
    and u: "url example_roboto = ''https://fonts.googleapis.com/css?family=Roboto''"
    by (simp_all add: example_roboto_def)
  have links: "elements_with_id ''font-link-roboto''
        (fst (injectFontStyles [example_arial, example_roboto] Map.empty example_page)) =
      [\<lparr>tagName = ''link'', elem_id = ''font-link-roboto'', rel = ''stylesheet'',
        href = ''https://fonts.googleapis.com/css?family=Roboto'', innerHTML = []\<rparr>] \<and>
    elements_with_id ''font-link-roboto''
        (fst (injectFontStyles [example_arial, example_roboto] Map.empty
           (fst (injectFontStyles [example_arial, example_roboto] Map.empty example_page)))) =
      [\<lparr>tagName = ''link'', elem_id = ''font-link-roboto'', rel = ''stylesheet'',
        href = ''https://fonts.googleapis.com/css?family=Roboto'', innerHTML = []\<rparr>]"
    using h1 h2 h3
      reinjection_replaces_style_and_keeps_links
        [where fonts = "[example_arial, example_roboto]" and m = Map.empty
           and d = example_page and font = example_roboto]
    by (simp add: q u linkId_def)
  have old: "styleSheet example_styled_page = ''.ql-font-old { font-family: Old; }''"
    by (simp add: styleSheet_def getElementById_def example_styled_page_def styleId_def)
  have round: "injectFont Map.empty example_arial (empty_document, [], []) =
      (empty_document, pickerLabelCss example_arial @ contentClassCss example_arial, [])"
    by (simp add: injectFont_def isExternalCssLink_def isExternalFontFile_def
        isLocalFontFile_def startsWith_def example_arial_def)
  have "styleSheet (fst (injectFontStyles [example_arial] Map.empty example_styled_page)) =
      fst (snd (foldl (\<lambda>acc font. injectFont Map.empty font acc)
                 (empty_document, [], []) [example_arial]))"
    using reinjection_replaces_style_and_keeps_links
        [where fonts = "[example_arial]" and m = Map.empty and d = example_styled_page
           and d' = empty_document]
    by blast
  then have "styleSheet (fst (injectFontStyles [example_arial] Map.empty
        example_styled_page)) = pickerLabelCss example_arial @ contentClassCss example_arial"
    by (simp add: round)
  moreover have "name example_arial = ''Arial''" "quillValue example_arial = ''arial''"
    "cssFamily example_arial = ''Arial, sans-serif''"
    by (simp_all add: example_arial_def)
  ultimately have new:
    \<open>styleSheet (fst (injectFontStyles [example_arial] Map.empty example_styled_page)) =
          ''\<newline>'' @
          ''/* Styles for font picker dropdown label */\<newline>'' @
          ''.ql-picker.ql-font .ql-picker-label[data-value="arial"]::before,\<newline>'' @
          ''.ql-picker.ql-font .ql-picker-item[data-value="arial"]::before {\<newline>'' @
          ''  content: "Arial"; /* Displays the user-friendly name in the dropdown */\<newline>'' @
          ''  font-family: Arial, sans-serif; /* Applies the cssFamily (e.g., 'Virgin Money Loop, sans-serif') */\<newline>'' @
          ''}\<newline>'' @
          ''/* Styles for actual content in the editor */\<newline>'' @
          ''.ql-font-arial {\<newline>'' @
          ''  font-family: Arial, sans-serif; /* Applies the cssFamily (e.g., 'Virgin Money Loop, sans-serif') */\<newline>'' @
          ''}\<newline>''\<close>
    by (simp add: pickerLabelCss_def contentClassCss_def)
  from h1 h2 h3 links old new show ?thesis
    by (intro conjI) simp_all
qed

subsection \<open>Cleanup\<close>

lemma remove_first_is_filter:
  "index_of_id i es = Some k \<Longrightarrow> length (filter (\<lambda>e. elem_id e = i) es) \<le> 1 \<Longrightarrow>
   take k es @ drop (Suc k) es = filter (\<lambda>e. elem_id e \<noteq> i) es"
proof (induction es arbitrary: k)
  case Nil
  then show ?case by simp
next
  case (Cons e es)
  show ?case
  proof (cases "elem_id e = i")
    case True
    with Cons.prems have "k = 0" and "filter (\<lambda>e. elem_id e = i) es = []"
      by auto
    then have "filter (\<lambda>e. elem_id e \<noteq> i) es = es"
      by (simp add: filter_empty_conv filter_id_conv)
    with True \<open>k = 0\<close> show ?thesis by simp
  next
    case False
    with Cons.prems obtain k' where "k = Suc k'" and "index_of_id i es = Some k'"
      by auto
    with Cons False show ?thesis by simp
  qed
qed

lemma no_id_filter: "filter (\<lambda>e. elem_id e = i) es = [] \<Longrightarrow> filter (\<lambda>e. elem_id e \<noteq> i) es = es"
  by (simp add: filter_empty_conv filter_id_conv)

lemma remove_by_id_without:
  assumes "length (elements_with_id i d) \<le> 1"
  shows "remove_by_id i d = without_ids {i} d"
proof (cases "index_of_id i (head d)")
  case None
  then have h: "filter (\<lambda>e. elem_id e = i) (head d) = []"
    by (simp add: index_of_id_None)
  show ?thesis
  proof (cases "index_of_id i (body d)")
    case none: None
    then have "filter (\<lambda>e. elem_id e = i) (body d) = []"
      by (simp add: index_of_id_None)
    with h None none show ?thesis
      by (simp add: remove_by_id_def getElementById_def without_ids_def no_id_filter)
  next
    case (Some k)
    with assms h have "take k (body d) @ drop (Suc k) (body d) =
        filter (\<lambda>e. elem_id e \<noteq> i) (body d)"
      by (intro remove_first_is_filter) (simp_all add: elements_with_id_def)
    with h None Some show ?thesis
      by (simp add: remove_by_id_def getElementById_def without_ids_def remove_def no_id_filter)
  qed
next
  case (Some k)
  then have "filter (\<lambda>e. elem_id e = i) (head d) \<noteq> []"
    using index_of_id_None [of i "head d"] by simp
  then have "1 \<le> length (filter (\<lambda>e. elem_id e = i) (head d))"
    by (cases "filter (\<lambda>e. elem_id e = i) (head d)") simp_all
  moreover have "length (filter (\<lambda>e. elem_id e = i) (head d)) +
      length (filter (\<lambda>e. elem_id e = i) (body d)) \<le> 1"
    using assms by (simp add: elements_with_id_def)
  ultimately have "length (filter (\<lambda>e. elem_id e = i) (body d)) = 0"
    and h: "length (filter (\<lambda>e. elem_id e = i) (head d)) \<le> 1"
    by arith+
  then have b: "filter (\<lambda>e. elem_id e = i) (body d) = []"
    by simp
  from Some h have "take k (head d) @ drop (Suc k) (head d) =
      filter (\<lambda>e. elem_id e \<noteq> i) (head d)"
    by (rule remove_first_is_filter)
  with b Some show ?thesis
    by (simp add: remove_by_id_def getElementById_def without_ids_def remove_def no_id_filter)
qed

lemma without_ids_twice: "without_ids I (without_ids J d) = without_ids (J \<union> I) d"
  by (auto simp: without_ids_def intro: filter_cong)

lemma elements_with_id_without_le:
  "length (elements_with_id i (without_ids I d)) \<le> length (elements_with_id i d)"
proof -
  have "length (filter P (filter Q es)) \<le> length (filter P es)" for P Q and es :: "element list"
    by (induction es) auto
  then show ?thesis
    by (simp add: elements_with_id_def without_ids_def add_mono)
qed

lemma remove_all_without:
  "(\<forall>i\<in>set ids. length (elements_with_id i d) \<le> 1) \<Longrightarrow>
   foldl (\<lambda>acc i. remove_by_id i acc) d ids = without_ids (set ids) d"
proof (induction ids arbitrary: d)
  case Nil
  show ?case by (simp add: without_ids_def)
next
  case (Cons i ids)
  have "\<forall>j\<in>set ids. length (elements_with_id j (without_ids {i} d)) \<le> 1"
    using Cons.prems elements_with_id_without_le [of _ "{i}" d]
    by (meson le_trans list.set_intros(2))
  with Cons show ?case
    by (simp add: remove_by_id_without without_ids_twice)
qed

lemma cleanupFontStyles_without:
  assumes "\<forall>i\<in>font_ids fonts. length (elements_with_id i d) \<le> 1"
  shows "cleanupFontStyles fonts d = without_ids (font_ids fonts) d"
proof -
  have "cleanupFontStyles fonts d =
      foldl (\<lambda>acc i. remove_by_id i acc) d (styleId # map linkId fonts)"
    by (simp add: cleanupFontStyles_def foldl_map)
  also have "\<dots> = without_ids (set (styleId # map linkId fonts)) d"
    using assms by (intro remove_all_without) (simp add: font_ids_def)
  finally show ?thesis
    by (simp add: font_ids_def)
qed

lemma without_ids_absent:
  "(\<forall>i\<in>I. elements_with_id i d = []) \<Longrightarrow> without_ids I d = d"
proof -
  assume a: "\<forall>i\<in>I. elements_with_id i d = []"
  have "filter (\<lambda>e. elem_id e \<notin> I) (head d) = head d"
    using a by (auto simp: elements_with_id_def filter_empty_conv filter_id_conv)
  moreover have "filter (\<lambda>e. elem_id e \<notin> I) (body d) = body d"
    using a by (auto simp: elements_with_id_def filter_empty_conv filter_id_conv)
  ultimately show ?thesis
    by (simp add: without_ids_def)
qed

lemma elements_with_id_without: "i \<in> I \<Longrightarrow> elements_with_id i (without_ids I d) = []"
  by (auto simp: without_ids_def elements_with_id_def filter_empty_conv)

lemma without_ids_append:
  "elem_id e \<in> I \<Longrightarrow> without_ids I (head_appendChild e d) = without_ids I d"
  by (simp add: without_ids_def head_appendChild_def)

lemma without_ids_set_innerHTML:
  assumes "getElementById d j = Some r" and "j \<in> I"
  shows "without_ids I (set_innerHTML r t d) = without_ids I d"
proof (cases r)
  case (InHead k)
  with assms have "elem_id (head d ! k) = j"
    by (auto simp: getElementById_def dest: index_of_id_Some split: option.splits)
  with assms InHead show ?thesis
    by (simp add: without_ids_def set_innerHTML_def filter_update_irrelevant)
next
  case (InBody k)
  with assms have "elem_id (body d ! k) = j"
    by (auto simp: getElementById_def dest: index_of_id_Some split: option.splits)
  with assms InBody show ?thesis
    by (simp add: without_ids_def set_innerHTML_def filter_update_irrelevant)
qed

lemma without_ids_ensureStyle:
  "styleId \<in> I \<Longrightarrow> without_ids I (snd (ensureStyle d)) = without_ids I d"
  by (simp add: ensureStyle_def without_ids_append split: option.splits)

lemma without_ids_ensureLinks:
  "linkId ` set fonts \<subseteq> I \<Longrightarrow>
   without_ids I (foldl (\<lambda>acc font. ensureLink font acc) d fonts) = without_ids I d"
  by (induction fonts arbitrary: d) (simp_all add: ensureLink_def without_ids_append)

lemma without_ids_injectFontStyles:
  "without_ids (font_ids fonts) (fst (injectFontStyles fonts m d)) = without_ids (font_ids fonts) d"
proof -
  let ?D = "foldl (\<lambda>acc font. ensureLink font acc) (snd (ensureStyle d)) fonts"
  have "getElementById ?D styleId = Some (fst (ensureStyle d))"
    by (simp add: ensureLinks_preserves ensureStyle_found)
  then have "without_ids (font_ids fonts) (fst (injectFontStyles fonts m d)) =
      without_ids (font_ids fonts) ?D"
    by (simp add: injectFontStyles_parts without_ids_set_innerHTML [of _ styleId] font_ids_def)
  then show ?thesis
    by (simp add: without_ids_ensureLinks without_ids_ensureStyle font_ids_def subset_insertI)
qed

lemma length_filter_id_update:
  "length (filter (\<lambda>e. elem_id e = i) (es[k := (es ! k)\<lparr>innerHTML := t\<rparr>])) =
   length (filter (\<lambda>e. elem_id e = i) es)"
proof (induction es arbitrary: k)
  case Nil
  then show ?case by simp
next
  case (Cons e es)
  then show ?case by (cases k) auto
qed

lemma length_elements_with_id_set_innerHTML:
  "length (elements_with_id i (set_innerHTML r t d)) = length (elements_with_id i d)"
  by (cases r) (simp_all add: elements_with_id_def set_innerHTML_def length_filter_id_update)

lemma at_most_once_append:
  assumes "length (elements_with_id i d) \<le> Suc 0" and "getElementById d (elem_id e) = None"
  shows "length (elements_with_id i (head_appendChild e d)) \<le> Suc 0"
proof (cases "elem_id e = i")
  case True
  with assms have "elements_with_id i (head_appendChild e d) = [e]"
    using elements_with_id_append_new [of e d] by (simp add: getElementById_None_iff)
  then show ?thesis by simp
next
  case False
  with assms show ?thesis
    by (simp add: elements_with_id_append_other)
qed

lemma at_most_once_ensureLink:
  assumes "length (elements_with_id i d) \<le> Suc 0"
  shows "length (elements_with_id i (ensureLink g d)) \<le> Suc 0"
proof (cases "isExternalCssLink g \<and> getElementById d (linkId g) = None")
  case True
  then have "getElementById d
      (elem_id ((createElement ''link'')
         \<lparr>elem_id := linkId g, rel := ''stylesheet'', href := url g\<rparr>)) = None"
    by simp
  from at_most_once_append [OF assms this] True show ?thesis
    by (simp add: ensureLink_def)
next
  case False
  with assms show ?thesis
    by (auto simp: ensureLink_def)
qed

lemma at_most_once_ensureLinks:
  "length (elements_with_id i d) \<le> Suc 0 \<Longrightarrow>
   length (elements_with_id i (foldl (\<lambda>acc font. ensureLink font acc) d fonts)) \<le> Suc 0"
  by (induction fonts arbitrary: d) (simp_all add: at_most_once_ensureLink)

lemma at_most_once_ensureStyle:
  assumes "length (elements_with_id i d) \<le> Suc 0"
  shows "length (elements_with_id i (snd (ensureStyle d))) \<le> Suc 0"
proof (cases "getElementById d styleId")
  case None
  then have "getElementById d (elem_id ((createElement ''style'')\<lparr>elem_id := styleId\<rparr>)) = None"
    by simp
  from at_most_once_append [OF assms this] None show ?thesis
    by (simp add: ensureStyle_def)
next
  case (Some r)
  with assms show ?thesis
    by (simp add: ensureStyle_def)
qed

lemma at_most_once_injectFontStyles:
  assumes "length (elements_with_id i d) \<le> Suc 0"
  shows "length (elements_with_id i (fst (injectFontStyles fonts m d))) \<le> Suc 0"
  using at_most_once_ensureLinks [OF at_most_once_ensureStyle [OF assms], of fonts]
  by (simp add: injectFontStyles_parts length_elements_with_id_set_innerHTML)

text \<open>
  Claim C7. On a document in which each of the ids of the set (the style id and
  font-link-quillValue for every descriptor) occurs at most once, cleanup after injection
  leaves the document without any element that has one of these ids and with every other
  element as it was: the style element and every link element of the set are removed.
  A second cleanup in a row changes nothing, and cleanup on a document that has none of
  these elements changes nothing; in that case cleanup after injection gives the document
  back. Cleanup has no failing path: every removal is guarded by the lookup.
\<close>

theorem cleanup_removes_what_was_injected:
  assumes "\<forall>i\<in>font_ids fonts. length (elements_with_id i d) \<le> 1"
  shows "cleanupFontStyles fonts (fst (injectFontStyles fonts m d)) = without_ids (font_ids fonts) d \<and>
         (\<forall>i\<in>font_ids fonts.
            elements_with_id i (cleanupFontStyles fonts (fst (injectFontStyles fonts m d))) = []) \<and>
         cleanupFontStyles fonts (cleanupFontStyles fonts (fst (injectFontStyles fonts m d))) =
           cleanupFontStyles fonts (fst (injectFontStyles fonts m d)) \<and>
         ((\<forall>i\<in>font_ids fonts. elements_with_id i d = []) \<longrightarrow>
            cleanupFontStyles fonts d = d \<and>
            cleanupFontStyles fonts (fst (injectFontStyles fonts m d)) = d)"
proof -
  let ?T = "font_ids fonts"
  have once: "\<forall>i\<in>?T. length (elements_with_id i (fst (injectFontStyles fonts m d))) \<le> 1"
    using assms by (simp add: at_most_once_injectFontStyles)
  have clean: "cleanupFontStyles fonts (fst (injectFontStyles fonts m d)) = without_ids ?T d"
    using cleanupFontStyles_without [OF once] by (simp add: without_ids_injectFontStyles)
  have gone: "\<forall>i\<in>?T. elements_with_id i (without_ids ?T d) = []"
    by (simp add: elements_with_id_without)
  then have again: "cleanupFontStyles fonts (without_ids ?T d) = without_ids ?T d"
    by (simp add: cleanupFontStyles_without without_ids_absent)
  have noop: "cleanupFontStyles fonts d = d \<and> without_ids ?T d = d"
    if "\<forall>i\<in>?T. elements_with_id i d = []"
    using that by (simp add: cleanupFontStyles_without without_ids_absent)
  show ?thesis
    using clean gone again noop by simp
qed

theorem cleanup_removes_what_was_injected_witness:
  "font_ids [example_arial, example_roboto] =
     {styleId, linkId example_arial, linkId example_roboto} \<and>
   elements_with_id styleId example_page = [] \<and>
   elements_with_id (linkId example_arial) example_page = [] \<and>
   elements_with_id (linkId example_roboto) example_page = [] \<and>
   cleanupFontStyles [example_arial, example_roboto]
     (fst (injectFontStyles [example_arial, example_roboto] Map.empty example_page)) = example_page \<and>
   cleanupFontStyles [example_arial, example_roboto]
     (cleanupFontStyles [example_arial, example_roboto]
        (fst (injectFontStyles [example_arial, example_roboto] Map.empty example_page))) =
     example_page"
proof -
  have absent: "\<forall>i\<in>font_ids [example_arial, example_roboto]. elements_with_id i example_page = []"
    by (simp add: font_ids_def elements_with_id_def example_page_def styleId_def linkId_def
        example_arial_def example_roboto_def)
  then have once: "\<forall>i\<in>font_ids [example_arial, example_roboto].
      length (elements_with_id i example_page) \<le> 1"
    by simp
  note t = cleanup_removes_what_was_injected [OF once, of Map.empty]
  from t absent have restored: "cleanupFontStyles [example_arial, example_roboto]
      (fst (injectFontStyles [example_arial, example_roboto] Map.empty example_page)) =
      example_page"
    by blast
  from t have twice: "cleanupFontStyles [example_arial, example_roboto]
      (cleanupFontStyles [example_arial, example_roboto]
         (fst (injectFontStyles [example_arial, example_roboto] Map.empty example_page))) =
      cleanupFontStyles [example_arial, example_roboto]
        (fst (injectFontStyles [example_arial, example_roboto] Map.empty example_page))"
    by blast
  show ?thesis
    using absent restored twice by (simp add: font_ids_def)
qed

subsection \<open>The orchestrator\<close>

lemma local_iff: "isLocalFontFile font \<longleftrightarrow> url font \<noteq> [] \<and> \<not> startsWith (url font) ''http''"
  by (simp add: isLocalFontFile_def)

lemma try_block_events:
  "\<exists>es. snd (try_block net u) = Fetch u # es \<and>
        Call_injectFontStyles \<notin> set es \<and> Call_registerQuillFonts \<notin> set es"
  by (auto simp: try_block_def readAsDataURL_promise_def
      split: promise.splits blob.splits option.splits)

lemma getFontDataUri_events:
  assumes "u \<noteq> []" and "\<not> startsWith u ''http''"
  shows "Fetch u \<in> set (snd (getFontDataUri net u)) \<and>
         Call_injectFontStyles \<notin> set (snd (getFontDataUri net u)) \<and>
         Call_registerQuillFonts \<notin> set (snd (getFontDataUri net u))"
proof -
  obtain c es where tb: "try_block net u = (c, Fetch u # es)"
    and es: "Call_injectFontStyles \<notin> set es" "Call_registerQuillFonts \<notin> set es"
    using try_block_events [of net u] by (cases "try_block net u") auto
  show ?thesis
    using assms tb es
    by (cases c) (auto simp: getFontDataUri_def split: promise.splits)
qed

lemma getFontDataUri_fails_null:
  assumes "u \<noteq> []" and "\<not> startsWith u ''http''" and "fetch_fails net u"
  shows "fst (getFontDataUri net u) = Fulfilled None"
  using assms
  by (auto simp: getFontDataUri_def try_block_def fetch_fails_def split: promise.splits)

lemma loadFont_cases:
  "\<exists>p loaded' es. loadFont net font (loaded, evs) = (p, loaded', evs @ es) \<and>
     Call_injectFontStyles \<notin> set es \<and> Call_registerQuillFonts \<notin> set es \<and>
     (isLocalFontFile font \<longrightarrow> Fetch (url font) \<in> set es) \<and>
     (p = Fulfilled () \<longleftrightarrow>
        (isLocalFontFile font \<longrightarrow> (\<exists>r. fst (getFontDataUri net (url font)) = Fulfilled r))) \<and>
     (\<forall>n u. loaded' n = Some u \<longrightarrow>
        loaded n = Some u \<or>
        (isLocalFontFile font \<and> name font = n \<and>
         fst (getFontDataUri net (url font)) = Fulfilled (Some u)))"
proof (cases "isLocalFontFile font")
  case False
  then show ?thesis
    by (auto simp: loadFont_def local_iff)
next
  case True
  then have u: "url font \<noteq> []" "\<not> startsWith (url font) ''http''"
    by (simp_all add: local_iff)
  obtain r es where g: "getFontDataUri net (url font) = (r, es)"
    by (cases "getFontDataUri net (url font)")
  with getFontDataUri_events [OF u, of net] have es: "Fetch (url font) \<in> set es"
    "Call_injectFontStyles \<notin> set es" "Call_registerQuillFonts \<notin> set es"
    by simp_all
  show ?thesis
    using True u g es
    by (cases r) (auto simp: loadFont_def object_set_def split: option.splits if_splits)
qed

lemma loadFont_untouched:
  assumes "\<not> isLocalFontFile font \<or> fetch_fails net (url font)"
  shows "\<exists>es'. loadFont net font (loaded, es) = (Fulfilled (), loaded, es')"
proof (cases "isLocalFontFile font")
  case False
  then show ?thesis by (auto simp: loadFont_def local_iff)
next
  case True
  with assms have "fst (getFontDataUri net (url font)) = Fulfilled None"
    by (simp add: getFontDataUri_fails_null local_iff)
  with True show ?thesis
    by (cases "getFontDataUri net (url font)") (simp add: loadFont_def local_iff)
qed

lemma loadFonts_cases:
  "\<exists>ps loaded' es. loadFonts net fonts (loaded, evs) = (ps, loaded', evs @ es) \<and>
     Call_injectFontStyles \<notin> set es \<and> Call_registerQuillFonts \<notin> set es \<and>
     (\<forall>font\<in>set fonts. isLocalFontFile font \<longrightarrow> Fetch (url font) \<in> set es) \<and>
     ((\<forall>p\<in>set ps. p = Fulfilled ()) \<longleftrightarrow>
        (\<forall>font\<in>set fonts. isLocalFontFile font \<longrightarrow>
           (\<exists>r. fst (getFontDataUri net (url font)) = Fulfilled r))) \<and>
     (\<forall>n u. loaded' n = Some u \<longrightarrow>
        loaded n = Some u \<or>
        (\<exists>font\<in>set fonts. isLocalFontFile font \<and> name font = n \<and>
           fst (getFontDataUri net (url font)) = Fulfilled (Some u)))"
proof (induction fonts arbitrary: loaded evs)
  case Nil
  show ?case by simp
next
  case (Cons font fonts)
  obtain p l1 e1 where one: "loadFont net font (loaded, evs) = (p, l1, evs @ e1)"
    and e1: "Call_injectFontStyles \<notin> set e1" "Call_registerQuillFonts \<notin> set e1"
      "isLocalFontFile font \<longrightarrow> Fetch (url font) \<in> set e1"
    and p: "p = Fulfilled () \<longleftrightarrow>
        (isLocalFontFile font \<longrightarrow> (\<exists>r. fst (getFontDataUri net (url font)) = Fulfilled r))"
    and l1: "\<forall>n u. l1 n = Some u \<longrightarrow> loaded n = Some u \<or>
        (isLocalFontFile font \<and> name font = n \<and>
         fst (getFontDataUri net (url font)) = Fulfilled (Some u))"
    using loadFont_cases [of net font loaded evs] by blast
  obtain ps l2 e2 where rest: "loadFonts net fonts (l1, evs @ e1) = (ps, l2, (evs @ e1) @ e2)"
    and e2: "Call_injectFontStyles \<notin> set e2" "Call_registerQuillFonts \<notin> set e2"
      "\<forall>font\<in>set fonts. isLocalFontFile font \<longrightarrow> Fetch (url font) \<in> set e2"
    and ps: "(\<forall>p\<in>set ps. p = Fulfilled ()) \<longleftrightarrow>
        (\<forall>font\<in>set fonts. isLocalFontFile font \<longrightarrow>
           (\<exists>r. fst (getFontDataUri net (url font)) = Fulfilled r))"
    and l2: "\<forall>n u. l2 n = Some u \<longrightarrow> l1 n = Some u \<or>
        (\<exists>font\<in>set fonts. isLocalFontFile font \<and> name font = n \<and>
           fst (getFontDataUri net (url font)) = Fulfilled (Some u))"
    using Cons.IH [of l1 "evs @ e1"] by blast
  have eq: "loadFonts net (font # fonts) (loaded, evs) = (p # ps, l2, evs @ (e1 @ e2))"
    using one rest by simp
  have ev: "Call_injectFontStyles \<notin> set (e1 @ e2)" "Call_registerQuillFonts \<notin> set (e1 @ e2)"
    "\<forall>f\<in>set (font # fonts). isLocalFontFile f \<longrightarrow> Fetch (url f) \<in> set (e1 @ e2)"
    using e1 e2 by auto
  have all: "(\<forall>p'\<in>set (p # ps). p' = Fulfilled ()) \<longleftrightarrow>
      (\<forall>f\<in>set (font # fonts). isLocalFontFile f \<longrightarrow>
         (\<exists>r. fst (getFontDataUri net (url f)) = Fulfilled r))"
    using p ps by simp
  have store: "\<forall>n u. l2 n = Some u \<longrightarrow> loaded n = Some u \<or>
      (\<exists>f\<in>set (font # fonts). isLocalFontFile f \<and> name f = n \<and>
         fst (getFontDataUri net (url f)) = Fulfilled (Some u))"
    using l1 l2 by (metis list.set_intros(1) list.set_intros(2))
  show ?case
    using eq ev all store by blast
qed

lemma Promise_all_units:
  "(\<exists>vs. Promise_all ps = Fulfilled vs) \<longleftrightarrow> (\<forall>p\<in>set ps. p = Fulfilled ())"
proof -
  have r: "first_rejection ps = None \<longleftrightarrow> (\<forall>p\<in>set ps. \<forall>e. p \<noteq> Rejected e)"
    for ps :: "unit promise list"
    by (induction ps rule: first_rejection.induct) auto
  have f: "(\<exists>vs. fulfilled_values ps = Some vs) \<longleftrightarrow> (\<forall>p\<in>set ps. p = Fulfilled ())"
    for ps :: "unit promise list"
    by (induction ps rule: fulfilled_values.induct) auto
  show ?thesis
  proof (cases "\<forall>p\<in>set ps. p = Fulfilled ()")
    case True
    then have "first_rejection ps = None"
      by (subst r) auto
    moreover obtain vs where "fulfilled_values ps = Some vs"
      using True f by blast
    ultimately show ?thesis
      using True by (simp add: Promise_all_def)
  next
    case False
    then have "fulfilled_values ps = None"
      using f [of ps] by (cases "fulfilled_values ps") auto
    with False show ?thesis
      by (simp add: Promise_all_def split: option.splits)
  qed
qed

text \<open>
  Claim C3. For every set of descriptors and every order in which the callbacks settle:
  if the style injector is called at all, then the loader's promise of every local-URL descriptor is fulfilled, the registrar has
  returned, and in the sequence of events every request comes before the call of the
  registrar, which comes before the call of the injector; the injector receives the
  Data-URI Map collected from all callbacks. If the injector is not called the document
  is untouched. Every entry of the map comes from a local descriptor of that name whose
  load gave a data URI; the callback of a descriptor that is skipped or whose fetch
  fails is fulfilled and leaves the map as it is; and when every local descriptor either
  fails at the fetch or is loaded, the operation is not aborted: the promise is fulfilled
  and the injector runs (given a registry that has the font format).
\<close>

theorem applyFonts_injects_last:
  assumes "mset settled = mset fonts"
    and "applyFonts net settled fonts (q, d) = (p, (q', d'), evs)"
  shows "(Call_injectFontStyles \<in> set evs \<longrightarrow>
            (\<forall>font\<in>set fonts. isLocalFontFile font \<longrightarrow>
               (\<exists>r. fst (getFontDataUri net (url font)) = Fulfilled r)) \<and>
            registerQuillFonts fonts q = Inr q' \<and>
            (\<exists>loads console.
               evs = loads @ [Call_registerQuillFonts, Call_injectFontStyles] @ console \<and>
               Call_registerQuillFonts \<notin> set loads \<and> Call_injectFontStyles \<notin> set loads \<and>
               (\<forall>font\<in>set fonts. isLocalFontFile font \<longrightarrow> Fetch (url font) \<in> set loads) \<and>
               injectFontStyles fonts (dataUriMap net settled) d = (d', console))) \<and>
         (Call_injectFontStyles \<notin> set evs \<longrightarrow> d' = d) \<and>
         (\<forall>n u. dataUriMap net settled n = Some u \<longrightarrow>
            (\<exists>font\<in>set fonts. isLocalFontFile font \<and> name font = n \<and>
               fst (getFontDataUri net (url font)) = Fulfilled (Some u))) \<and>
         (\<forall>font\<in>set fonts. \<not> isLocalFontFile font \<or> fetch_fails net (url font) \<longrightarrow>
            (\<forall>loaded es. \<exists>es'. loadFont net font (loaded, es) = (Fulfilled (), loaded, es'))) \<and>
         ((\<forall>font\<in>set fonts. isLocalFontFile font \<longrightarrow>
             fetch_fails net (url font) \<or>
             (\<exists>u. fst (getFontDataUri net (url font)) = Fulfilled (Some u))) \<and>
          Quill_import q ''formats/font'' \<noteq> None \<longrightarrow>
            p = Fulfilled () \<and> Call_injectFontStyles \<in> set evs)"
proof -
  have same: "set settled = set fonts"
    using assms(1) by (rule mset_eq_setD)
  note run = assms(2)
  obtain ps loaded es where
    props: "loadFonts net settled (Map.empty, []) = (ps, loaded, [] @ es) \<and>
      Call_injectFontStyles \<notin> set es \<and> Call_registerQuillFonts \<notin> set es \<and>
      (\<forall>font\<in>set fonts. isLocalFontFile font \<longrightarrow> Fetch (url font) \<in> set es) \<and>
      ((\<forall>p\<in>set ps. p = Fulfilled ()) \<longleftrightarrow>
         (\<forall>font\<in>set fonts. isLocalFontFile font \<longrightarrow>
            (\<exists>r. fst (getFontDataUri net (url font)) = Fulfilled r))) \<and>
      (\<forall>n u. loaded n = Some u \<longrightarrow>
         Map.empty n = Some u \<or>
         (\<exists>font\<in>set fonts. isLocalFontFile font \<and> name font = n \<and>
            fst (getFontDataUri net (url font)) = Fulfilled (Some u)))"
    using loadFonts_cases [of net settled Map.empty "[]"] unfolding same
    by (elim exE) (rule that)
  then have lf: "loadFonts net settled (Map.empty, []) = (ps, loaded, es)"
    and es: "Call_injectFontStyles \<notin> set es" "Call_registerQuillFonts \<notin> set es"
      "\<forall>font\<in>set fonts. isLocalFontFile font \<longrightarrow> Fetch (url font) \<in> set es"
    and all: "(\<forall>p\<in>set ps. p = Fulfilled ()) \<longleftrightarrow>
        (\<forall>font\<in>set fonts. isLocalFontFile font \<longrightarrow>
           (\<exists>r. fst (getFontDataUri net (url font)) = Fulfilled r))"
    and store: "\<forall>n u. loaded n = Some u \<longrightarrow>
        (\<exists>font\<in>set fonts. isLocalFontFile font \<and> name font = n \<and>
           fst (getFontDataUri net (url font)) = Fulfilled (Some u))"
    by simp_all
  have map_eq: "dataUriMap net settled = loaded"
    by (simp add: dataUriMap_def lf)
  have settled: "(\<exists>vs. Promise_all ps = Fulfilled vs) \<longleftrightarrow>
      (\<forall>font\<in>set fonts. isLocalFontFile font \<longrightarrow>
         (\<exists>r. fst (getFontDataUri net (url font)) = Fulfilled r))"
    using all by (simp add: Promise_all_units)
  have ordered: "Call_injectFontStyles \<in> set evs \<longrightarrow>
      (\<forall>font\<in>set fonts. isLocalFontFile font \<longrightarrow>
         (\<exists>r. fst (getFontDataUri net (url font)) = Fulfilled r)) \<and>
      registerQuillFonts fonts q = Inr q' \<and>
      (\<exists>loads console.
         evs = loads @ [Call_registerQuillFonts, Call_injectFontStyles] @ console \<and>
         Call_registerQuillFonts \<notin> set loads \<and> Call_injectFontStyles \<notin> set loads \<and>
         (\<forall>font\<in>set fonts. isLocalFontFile font \<longrightarrow> Fetch (url font) \<in> set loads) \<and>
         injectFontStyles fonts (dataUriMap net settled) d = (d', console))"
  proof (cases "Promise_all ps")
    case (Fulfilled vs)
    show ?thesis
    proof (cases "registerQuillFonts fonts q")
      case (Inl e)
      with run lf Fulfilled es show ?thesis
        by (auto simp: applyFonts_def)
    next
      case (Inr q1)
      obtain d1 console where inj: "injectFontStyles fonts loaded d = (d1, console)"
        by (cases "injectFontStyles fonts loaded d")
      with run lf Fulfilled Inr
      have res: "q' = q1" "d' = d1"
        "evs = es @ [Call_registerQuillFonts, Call_injectFontStyles] @ console"
        by (simp_all add: applyFonts_def)
      from settled Fulfilled have "\<forall>font\<in>set fonts. isLocalFontFile font \<longrightarrow>
          (\<exists>r. fst (getFontDataUri net (url font)) = Fulfilled r)"
        by blast
      with res Inr inj es map_eq show ?thesis
        by blast
    qed
  next
    case (Rejected e)
    with run lf es show ?thesis
      by (auto simp: applyFonts_def)
  next
    case Pending
    with run lf es show ?thesis
      by (auto simp: applyFonts_def)
  qed
  have quiet: "Call_injectFontStyles \<notin> set evs \<longrightarrow> d' = d"
    using run lf
    by (auto simp: applyFonts_def split: promise.splits sum.splits prod.splits)
  have isolated: "\<forall>font\<in>set fonts. \<not> isLocalFontFile font \<or> fetch_fails net (url font) \<longrightarrow>
      (\<forall>loaded es. \<exists>es'. loadFont net font (loaded, es) = (Fulfilled (), loaded, es'))"
    using loadFont_untouched by blast
  have completes: "p = Fulfilled () \<and> Call_injectFontStyles \<in> set evs"
    if ok: "\<forall>font\<in>set fonts. isLocalFontFile font \<longrightarrow>
         fetch_fails net (url font) \<or>
         (\<exists>u. fst (getFontDataUri net (url font)) = Fulfilled (Some u))"
      and reg: "Quill_import q ''formats/font'' \<noteq> None"
  proof -
    have "\<forall>font\<in>set fonts. isLocalFontFile font \<longrightarrow>
        (\<exists>r. fst (getFontDataUri net (url font)) = Fulfilled r)"
      using ok getFontDataUri_fails_null by (metis local_iff)
    with settled obtain vs where pa: "Promise_all ps = Fulfilled vs"
      by blast
    obtain q1 where "registerQuillFonts fonts q = Inr q1"
      using reg by (auto simp: registerQuillFonts_def)
    with run lf pa show ?thesis
      by (auto simp: applyFonts_def split: prod.splits)
  qed
  show ?thesis
    using ordered quiet store isolated completes unfolding map_eq by blast
qed

theorem applyFonts_injects_last_witness:
  "\<not> isLocalFontFile example_arial \<and> isLocalFontFile example_custom \<and>
   isLocalFontFile example_missing \<and> \<not> isLocalFontFile example_roboto \<and>
   fetch_fails example_network (url example_missing) \<and>
   fst (getFontDataUri example_network (url example_custom)) =
     Fulfilled (Some ''data:font/ttf;base64,AAEAAA=='') \<and>
   Quill_import example_quill ''formats/font'' = Some 0 \<and>
   (\<exists>q' d' evs.
      applyFonts example_network
        [example_missing, example_roboto, example_custom, example_arial]
        [example_arial, example_custom, example_missing, example_roboto]
        (example_quill, empty_document) = (Fulfilled (), (q', d'), evs) \<and>
      Call_injectFontStyles \<in> set evs \<and>
      registerQuillFonts [example_arial, example_custom, example_missing, example_roboto]
        example_quill = Inr q' \<and>
      dataUriMap example_network [example_missing, example_roboto, example_custom, example_arial]
        ''Missing'' = None)"
proof -
  let ?fonts = "[example_arial, example_custom, example_missing, example_roboto]"
  let ?settled = "[example_missing, example_roboto, example_custom, example_arial]"
  have perm: "mset ?settled = mset ?fonts"
    by simp
  have kinds: "\<not> isLocalFontFile example_arial" "isLocalFontFile example_custom"
    "isLocalFontFile example_missing" "\<not> isLocalFontFile example_roboto"
    by (simp_all add: isLocalFontFile_def startsWith_def example_arial_def example_custom_def
        example_missing_def example_roboto_def)
  have fails: "fetch_fails example_network (url example_missing)"
    by (simp add: fetch_fails_def example_network_def example_missing_def)
  have loads: "fst (getFontDataUri example_network (url example_custom)) =
      Fulfilled (Some ''data:font/ttf;base64,AAEAAA=='')"
    by (simp add: getFontDataUri_def try_block_def readAsDataURL_promise_def startsWith_def
        example_network_def example_custom_def)
  have null: "fst (getFontDataUri example_network (url example_missing)) = Fulfilled None"
    using kinds(3) fails by (simp add: getFontDataUri_fails_null isLocalFontFile_def)
  have reg: "Quill_import example_quill ''formats/font'' = Some 0"
    by (simp add: Quill_import_def example_quill_def)
  have names: "name example_arial \<noteq> ''Missing''" "name example_custom \<noteq> ''Missing''"
    "name example_roboto \<noteq> ''Missing''"
    by (simp_all add: example_arial_def example_custom_def example_roboto_def)
  obtain p q' d' evs where run:
    "applyFonts example_network ?settled ?fonts (example_quill, empty_document) =
       (p, (q', d'), evs)"
    by (cases "applyFonts example_network ?settled ?fonts (example_quill, empty_document)") auto
  note t = applyFonts_injects_last [OF perm run]
  have settled: "\<forall>font\<in>set ?fonts. isLocalFontFile font \<longrightarrow>
      fetch_fails example_network (url font) \<or>
      (\<exists>u. fst (getFontDataUri example_network (url font)) = Fulfilled (Some u))"
    using kinds fails loads by simp
  from t settled reg have finished: "p = Fulfilled ()" "Call_injectFontStyles \<in> set evs"
    by simp_all
  with t have registered: "registerQuillFonts ?fonts example_quill = Inr q'"
    by blast
  have "dataUriMap example_network ?settled ''Missing'' = None"
  proof (cases "dataUriMap example_network ?settled ''Missing''")
    case None
    then show ?thesis .
  next
    case (Some u)
    with t obtain font where "font \<in> set ?fonts" "name font = ''Missing''"
      "fst (getFontDataUri example_network (url font)) = Fulfilled (Some u)"
      by blast
    with names null show ?thesis
      by auto
  qed
  with kinds fails loads reg run finished registered show ?thesis
    by blast
qed

end
